theory Spec2Isabelle
  imports Complex_Main "HOL-Library.Multiset" "HOL-Library.Sublist" "HOL-Library.Product_Lexorder"
begin

section \<open>Data model (shared/schema.ts, migrations/0000_init.sql)\<close>

text \<open>
  Every table is a list of rows in storage order. Column names are those of
  shared/schema.ts with a one-letter table prefix (\<open>u_\<close> users, \<open>g_\<close> grievances,
  \<open>c_\<close> comments, \<open>v_\<close> user_votes, \<open>a_\<close> assignments), because several tables
  share column names. Timestamps are milliseconds since the epoch, a nullable column is
  an \<open>option\<close>, and an optional JavaScript argument (\<open>string | undefined\<close>) is a
  \<open>string option\<close>.
\<close>

datatype user_type = Citizen | Admin

datatype grievance_status = Pending | Urgent | InProgress | Resolved | Closed

datatype assignment_status = Assigned | AInProgress | Completed | Escalated

record user =
  u_id :: string
  u_username :: string
  u_password :: string
  u_email :: "string option"
  u_phone :: "string option"
  u_municipality :: string
  u_type :: user_type
  u_department :: "string option"
  u_createdAt :: int

record grievance =
  g_id :: string
  g_title :: string
  g_description :: string
  g_category :: string
  g_municipality :: string
  g_location :: "string option"
  g_authorId :: string
  g_timestamp :: int
  g_upvotes :: int
  g_downvotes :: int
  g_status :: grievance_status
  g_imageUrl :: "string option"
  g_updatedAt :: int

record comment =
  c_id :: string
  c_grievanceId :: string
  c_authorId :: string
  c_text :: string
  c_timestamp :: int
  c_upvotes :: int

record assignment =
  a_id :: string
  a_grievanceId :: string
  a_departmentId :: "string option"
  a_assignedTo :: "string option"
  a_assignedBy :: string
  a_assignedAt :: int
  a_status :: assignment_status
  a_notes :: "string option"
  a_completedAt :: "int option"

record user_vote =
  v_id :: string
  v_userId :: string
  v_grievanceId :: "string option"
  v_commentId :: "string option"
  v_voteType :: string
  v_timestamp :: int

text \<open>\<open>InsertUserVote\<close>: a vote row without \<open>id\<close> and \<open>timestamp\<close>.\<close>

record insert_user_vote =
  iv_userId :: string
  iv_grievanceId :: "string option"
  iv_commentId :: "string option"
  iv_voteType :: string

record db =
  users :: "user list"
  grievances :: "grievance list"
  comments :: "comment list"
  userVotes :: "user_vote list"
  assignments :: "assignment list"

text \<open>
  A statement the database rejects raises an error that carries the SQLSTATE code
  (\<open>error.code\<close> in the storage layer).
\<close>

datatype db_error = DbError string

definition check_violation :: db_error where
  "check_violation = DbError ''23514''"

definition unique_violation :: db_error where
  "unique_violation = DbError ''23505''"

definition foreign_key_violation :: db_error where
  "foreign_key_violation = DbError ''23503''"

definition invalid_text_representation :: db_error where
  "invalid_text_representation = DbError ''22P02''"

definition numeric_value_out_of_range :: db_error where
  "numeric_value_out_of_range = DbError ''22003''"

text \<open>
  An \<open>integer\<close> column holds 32 bits, and \<open>LIMIT\<close> and \<open>OFFSET\<close> take 64 bits. A
  JavaScript number is sent to the database as its decimal text and read there as an
  integer of the width the statement needs. From \<open>10^21\<close> on JavaScript writes a number
  with an exponent, which is no integer text; a value beyond the width is out of range.
\<close>

definition fits :: "nat \<Rightarrow> int \<Rightarrow> bool" where
  "fits bits n = (- (2 ^ (bits - 1)) \<le> n \<and> n \<le> 2 ^ (bits - 1) - 1)"

definition read_integer :: "nat \<Rightarrow> int \<Rightarrow> db_error option" where
  "read_integer bits n =
     (if n \<ge> 10 ^ 21 \<or> n \<le> - (10 ^ 21) then Some invalid_text_representation
      else if \<not> fits bits n then Some numeric_value_out_of_range
      else None)"

text \<open>
  Text is sent to the database as it is, and the database reads no text that holds the
  character NUL.
\<close>

definition character_not_in_repertoire :: db_error where
  "character_not_in_repertoire = DbError ''22021''"

definition read_text :: "string \<Rightarrow> db_error option" where
  "read_text s = (if CHR 0x00 \<in> set s then Some character_not_in_repertoire else None)"

text \<open>The first error in a list of checks, in the order in which they are made.\<close>

fun first_error :: "db_error option list \<Rightarrow> db_error option" where
  "first_error [] = None"
| "first_error (None # es) = first_error es"
| "first_error (Some e # es) = Some e"

text \<open>JavaScript truthiness of an optional string: \<open>undefined\<close> and \<open>""\<close> are falsy.\<close>

fun truthy :: "string option \<Rightarrow> bool" where
  "truthy None = False"
| "truthy (Some s) = (s \<noteq> [])"

text \<open>The labels of the enum \<open>grievance_status\<close> and the database's reading of a label.\<close>

fun status_label :: "grievance_status \<Rightarrow> string" where
  "status_label Pending = ''pending''"
| "status_label Urgent = ''urgent''"
| "status_label InProgress = ''in-progress''"
| "status_label Resolved = ''resolved''"
| "status_label Closed = ''closed''"

definition parse_status :: "string \<Rightarrow> grievance_status option" where
  "parse_status s =
     (if s = ''pending'' then Some Pending
      else if s = ''urgent'' then Some Urgent
      else if s = ''in-progress'' then Some InProgress
      else if s = ''resolved'' then Some Resolved
      else if s = ''closed'' then Some Closed
      else None)"

text \<open>A value for a status column: text, read as an enum label.\<close>

definition read_status :: "string \<Rightarrow> db_error option" where
  "read_status s =
     first_error
       [read_text s, if parse_status s = None then Some invalid_text_representation else None]"

section \<open>Vote store (PostgreSQLStorage, voting operations)\<close>

text \<open>
  \<open>getUserVote\<close>: the conditions are collected in a list and combined with \<open>and\<close>; a
  target id is a condition only when it is truthy. \<open>limit 1\<close> takes the first match.
  An SQL comparison with a NULL column selects nothing, hence \<open>= Some gid\<close>.
\<close>

definition vote_conditions :: "string \<Rightarrow> string option \<Rightarrow> string option \<Rightarrow> (user_vote \<Rightarrow> bool) list" where
  "vote_conditions userId grievanceId commentId =
     [\<lambda>v. v_userId v = userId]
     @ (if truthy grievanceId then [\<lambda>v. v_grievanceId v = grievanceId] else [])
     @ (if truthy commentId then [\<lambda>v. v_commentId v = commentId] else [])"

definition and_conditions :: "('r \<Rightarrow> bool) list \<Rightarrow> 'r \<Rightarrow> bool" where
  "and_conditions cs r = list_all (\<lambda>c. c r) cs"

definition getUserVote :: "db \<Rightarrow> string \<Rightarrow> string option \<Rightarrow> string option \<Rightarrow> user_vote option" where
  "getUserVote d userId grievanceId commentId =
     List.find (and_conditions (vote_conditions userId grievanceId commentId)) (userVotes d)"

text \<open>
  The constraints of table \<open>user_votes\<close> in the migration, in the order in which the
  database checks them on an insert: the two CHECK constraints, then the two UNIQUE
  constraints (NULLs never conflict), then the foreign keys.
\<close>

definition vote_type_check :: "user_vote \<Rightarrow> bool" where
  "vote_type_check v = (v_voteType v = ''up'' \<or> v_voteType v = ''down'')"

definition vote_target_check :: "user_vote \<Rightarrow> bool" where
  "vote_target_check v =
     ((v_grievanceId v \<noteq> None \<and> v_commentId v = None) \<or>
      (v_grievanceId v = None \<and> v_commentId v \<noteq> None))"

definition unique_conflict :: "user_vote \<Rightarrow> user_vote \<Rightarrow> bool" where
  "unique_conflict new old =
     (v_userId old = v_userId new \<and>
      ((v_grievanceId new \<noteq> None \<and> v_grievanceId old = v_grievanceId new) \<or>
       (v_commentId new \<noteq> None \<and> v_commentId old = v_commentId new)))"

definition vote_foreign_keys :: "db \<Rightarrow> user_vote \<Rightarrow> bool" where
  "vote_foreign_keys d v =
     (v_userId v \<in> set (map u_id (users d)) \<and>
      (case v_grievanceId v of None \<Rightarrow> True | Some g \<Rightarrow> g \<in> set (map g_id (grievances d))) \<and>
      (case v_commentId v of None \<Rightarrow> True | Some c \<Rightarrow> c \<in> set (map c_id (comments d))))"

text \<open>
  \<open>db.insert(userVotes).values(vote).returning()\<close>. The generated key
  (\<open>gen_random_uuid()\<close>) and the clock (\<open>NOW()\<close>) are parameters; the key is not
  compared with the stored keys.
\<close>

definition new_vote_row :: "insert_user_vote \<Rightarrow> string \<Rightarrow> int \<Rightarrow> user_vote" where
  "new_vote_row vote uuid now =
     \<lparr>v_id = uuid, v_userId = iv_userId vote, v_grievanceId = iv_grievanceId vote,
      v_commentId = iv_commentId vote, v_voteType = iv_voteType vote, v_timestamp = now\<rparr>"

definition insertUserVote :: "db \<Rightarrow> insert_user_vote \<Rightarrow> string \<Rightarrow> int \<Rightarrow> db_error + (db \<times> user_vote)" where
  "insertUserVote d vote uuid now =
     (let row = new_vote_row vote uuid now
      in if \<not> (vote_type_check row \<and> vote_target_check row) then Inl check_violation
         else if list_ex (unique_conflict row) (userVotes d) then Inl unique_violation
         else if \<not> vote_foreign_keys d row then Inl foreign_key_violation
         else Inr (d\<lparr>userVotes := userVotes d @ [row]\<rparr>, row))"

text \<open>
  The fallback \<open>update ... set voteType, timestamp where userId = ... and (grievanceId ?
  eq(grievanceId) : eq(commentId))\<close> with \<open>returning()\<close>; \<open>result[0]\<close> is \<open>undefined\<close>
  when no row matched. A comparison with an absent \<open>commentId\<close> matches no row.
\<close>

definition fallback_condition :: "insert_user_vote \<Rightarrow> user_vote \<Rightarrow> bool" where
  "fallback_condition vote v =
     (v_userId v = iv_userId vote \<and>
      (if truthy (iv_grievanceId vote) then v_grievanceId v = iv_grievanceId vote
       else iv_commentId vote \<noteq> None \<and> v_commentId v = iv_commentId vote))"

definition set_kind :: "string \<Rightarrow> int \<Rightarrow> user_vote \<Rightarrow> user_vote" where
  "set_kind voteType now v = v\<lparr>v_voteType := voteType, v_timestamp := now\<rparr>"

definition updateUserVote :: "db \<Rightarrow> insert_user_vote \<Rightarrow> int \<Rightarrow> db \<times> user_vote option" where
  "updateUserVote d vote now =
     (let rows = map (\<lambda>v. if fallback_condition vote v then set_kind (iv_voteType vote) now v else v)
                     (userVotes d)
      in (d\<lparr>userVotes := rows\<rparr>,
          map_option (set_kind (iv_voteType vote) now)
            (List.find (fallback_condition vote) (userVotes d))))"

definition createOrUpdateVote :: "db \<Rightarrow> insert_user_vote \<Rightarrow> string \<Rightarrow> int \<Rightarrow> db_error + (db \<times> user_vote option)" where
  "createOrUpdateVote d vote uuid now =
     (case insertUserVote d vote uuid now of
        Inr (d', row) \<Rightarrow> Inr (d', Some row)
      | Inl (DbError code) \<Rightarrow>
          if code = ''23505'' then Inr (updateUserVote d vote now)
          else Inl (DbError code))"

definition removeVote :: "db \<Rightarrow> string \<Rightarrow> string option \<Rightarrow> string option \<Rightarrow> db \<times> bool" where
  "removeVote d userId grievanceId commentId =
     (let c = and_conditions (vote_conditions userId grievanceId commentId)
      in (d\<lparr>userVotes := filter (\<lambda>v. \<not> c v) (userVotes d)\<rparr>,
          length (filter c (userVotes d)) > 0))"

section \<open>Counter reconciler (updateVoteCounts)\<close>

definition count_grievance_votes :: "db \<Rightarrow> string \<Rightarrow> string \<Rightarrow> int" where
  "count_grievance_votes d gid k =
     int (length (filter (\<lambda>v. v_grievanceId v = Some gid \<and> v_voteType v = k) (userVotes d)))"

definition count_comment_votes :: "db \<Rightarrow> string \<Rightarrow> string \<Rightarrow> int" where
  "count_comment_votes d cid k =
     int (length (filter (\<lambda>v. v_commentId v = Some cid \<and> v_voteType v = k) (userVotes d)))"

definition recount_grievance :: "db \<Rightarrow> string \<Rightarrow> db" where
  "recount_grievance d gid =
     (let upvotesResult = count_grievance_votes d gid ''up'';
          downvotesResult = count_grievance_votes d gid ''down''
      in d\<lparr>grievances :=
            map (\<lambda>g. if g_id g = gid
                     then g\<lparr>g_upvotes := upvotesResult, g_downvotes := downvotesResult\<rparr>
                     else g) (grievances d)\<rparr>)"

definition recount_comment :: "db \<Rightarrow> string \<Rightarrow> db" where
  "recount_comment d cid =
     (let upvotesResult = count_comment_votes d cid ''up''
      in d\<lparr>comments :=
            map (\<lambda>c. if c_id c = cid then c\<lparr>c_upvotes := upvotesResult\<rparr> else c) (comments d)\<rparr>)"

definition updateVoteCounts :: "db \<Rightarrow> string option \<Rightarrow> string option \<Rightarrow> db" where
  "updateVoteCounts d grievanceId commentId =
     (let d1 = (case grievanceId of
                  Some gid \<Rightarrow> if gid \<noteq> [] then recount_grievance d gid else d
                | None \<Rightarrow> d)
      in case commentId of
           Some cid \<Rightarrow> if cid \<noteq> [] then recount_comment d1 cid else d1
         | None \<Rightarrow> d1)"

section \<open>Grievance lookup\<close>

text \<open>
  \<open>getGrievance\<close>: the row with the given id, left-joined with its author's username
  (NULL when no user matches), first match.
\<close>

definition author_username :: "db \<Rightarrow> grievance \<Rightarrow> string option" where
  "author_username d g = map_option u_username (List.find (\<lambda>u. u_id u = g_authorId g) (users d))"

definition getGrievance :: "db \<Rightarrow> string \<Rightarrow> (grievance \<times> string option) option" where
  "getGrievance d gid =
     map_option (\<lambda>g. (g, author_username d g)) (List.find (\<lambda>g. g_id g = gid) (grievances d))"

section \<open>Vote routes (registerRoutes)\<close>

record session =
  userId :: "string option"
  userType :: "string option"

datatype body =
    ErrorBody string
  | VoteBody int int "string option"
  | CommentVoteBody "string option"
  | GrievanceBody "grievance option"

datatype response = Response nat body

text \<open>
  A request carries the session (\<open>req.session\<close>), the route parameter \<open>:id\<close> and the
  \<open>voteType\<close> of the body; an answer is a status code and a JSON body.

  The toggle is the same text in both vote handlers and is written once here: the
  existing vote is read; a vote of the requested kind is removed, anything else goes to
  \<open>createOrUpdateVote\<close>.
\<close>

definition toggle_vote :: "db \<Rightarrow> string \<Rightarrow> string option \<Rightarrow> string option \<Rightarrow> string \<Rightarrow> string \<Rightarrow> int \<Rightarrow> db_error + db" where
  "toggle_vote d uid grievanceId commentId vt uuid now =
     (let existingVote = getUserVote d uid grievanceId commentId;
          vote = \<lparr>iv_userId = uid, iv_grievanceId = grievanceId,
                  iv_commentId = commentId, iv_voteType = vt\<rparr>
      in if existingVote \<noteq> None \<and> map_option v_voteType existingVote = Some vt
         then Inr (fst (removeVote d uid grievanceId commentId))
         else map_sum id fst (createOrUpdateVote d vote uuid now))"

text \<open>\<open>userVote?.voteType || null\<close>\<close>

fun vote_type_or_null :: "user_vote option \<Rightarrow> string option" where
  "vote_type_or_null None = None"
| "vote_type_or_null (Some v) = (if v_voteType v = [] then None else Some (v_voteType v))"

text \<open>\<open>updatedGrievance?.upvotes || 0\<close> and \<open>updatedGrievance?.downvotes || 0\<close>\<close>

fun upvotes_or_zero :: "(grievance \<times> string option) option \<Rightarrow> int" where
  "upvotes_or_zero None = 0"
| "upvotes_or_zero (Some g) = g_upvotes (fst g)"

fun downvotes_or_zero :: "(grievance \<times> string option) option \<Rightarrow> int" where
  "downvotes_or_zero None = 0"
| "downvotes_or_zero (Some g) = g_downvotes (fst g)"

text \<open>\<open>!voteType || !['up', 'down'].includes(voteType)\<close> is the negation of:\<close>

definition valid_vote_type :: "string option \<Rightarrow> bool" where
  "valid_vote_type voteType = (truthy voteType \<and> voteType \<in> set [Some ''up'', Some ''down''])"

text \<open>
  \<open>POST /api/grievances/:id/vote\<close>. \<open>requireAuth\<close> answers 401 when the session has no
  (truthy) user id; then the vote type is validated, the grievance looked up, the vote
  toggled, the counters recomputed and the grievance and the vote read again. A storage
  call that throws is caught by the handler, which answers 500; the failed statement
  leaves the store as it was.
\<close>

definition grievance_vote_handler :: "db \<Rightarrow> string \<Rightarrow> string \<Rightarrow> string \<Rightarrow> string \<Rightarrow> int \<Rightarrow> db \<times> response" where
  "grievance_vote_handler d uid gid vt uuid now =
     (if getGrievance d gid = None then (d, Response 404 (ErrorBody ''Grievance not found''))
      else case toggle_vote d uid (Some gid) None vt uuid now of
        Inl e \<Rightarrow> (d, Response 500 (ErrorBody ''Failed to process vote''))
      | Inr d1 \<Rightarrow>
          (let d2 = updateVoteCounts d1 (Some gid) None;
               updatedGrievance = getGrievance d2 gid;
               userVote = getUserVote d2 uid (Some gid) None
           in (d2, Response 200 (VoteBody (upvotes_or_zero updatedGrievance)
                                          (downvotes_or_zero updatedGrievance)
                                          (vote_type_or_null userVote)))))"

definition post_grievance_vote :: "db \<Rightarrow> session \<Rightarrow> string \<Rightarrow> string option \<Rightarrow> string \<Rightarrow> int \<Rightarrow> db \<times> response" where
  "post_grievance_vote d sess gid voteType uuid now =
     (case (userId sess, voteType) of
        (Some uid, Some vt) \<Rightarrow>
          if uid = [] then (d, Response 401 (ErrorBody ''Authentication required''))
          else if \<not> valid_vote_type voteType then (d, Response 400 (ErrorBody ''Invalid vote type''))
          else grievance_vote_handler d uid gid vt uuid now
      | (Some uid, None) \<Rightarrow>
          if uid = [] then (d, Response 401 (ErrorBody ''Authentication required''))
          else (d, Response 400 (ErrorBody ''Invalid vote type''))
      | (None, _) \<Rightarrow> (d, Response 401 (ErrorBody ''Authentication required'')))"

text \<open>
  \<open>POST /api/comments/:id/vote\<close>, behind \<open>requireAuth\<close>: the handler reads no comment
  before it toggles the vote.
\<close>

definition comment_vote_handler :: "db \<Rightarrow> string \<Rightarrow> string \<Rightarrow> string \<Rightarrow> string \<Rightarrow> int \<Rightarrow> db \<times> response" where
  "comment_vote_handler d uid cid vt uuid now =
     (case toggle_vote d uid None (Some cid) vt uuid now of
        Inl e \<Rightarrow> (d, Response 500 (ErrorBody ''Failed to process vote''))
      | Inr d1 \<Rightarrow>
          (let d2 = updateVoteCounts d1 None (Some cid);
               userVote = getUserVote d2 uid None (Some cid)
           in (d2, Response 200 (CommentVoteBody (vote_type_or_null userVote)))))"

definition post_comment_vote :: "db \<Rightarrow> session \<Rightarrow> string \<Rightarrow> string option \<Rightarrow> string \<Rightarrow> int \<Rightarrow> db \<times> response" where
  "post_comment_vote d sess cid voteType uuid now =
     (case (userId sess, voteType) of
        (Some uid, Some vt) \<Rightarrow>
          if uid = [] then (d, Response 401 (ErrorBody ''Authentication required''))
          else if \<not> valid_vote_type voteType then (d, Response 400 (ErrorBody ''Invalid vote type''))
          else comment_vote_handler d uid cid vt uuid now
      | (Some uid, None) \<Rightarrow>
          if uid = [] then (d, Response 401 (ErrorBody ''Authentication required''))
          else (d, Response 400 (ErrorBody ''Invalid vote type''))
      | (None, _) \<Rightarrow> (d, Response 401 (ErrorBody ''Authentication required'')))"

section \<open>Grievance query engine (getGrievances)\<close>

text \<open>
  The \<open>filters\<close> argument. An absent field is \<open>None\<close>. \<open>limit\<close> and \<open>offset\<close> are
  JavaScript numbers: the route's \<open>parseInt\<close> gives an integer of either sign and any
  size, or \<open>NaN\<close> for text that is no number, which is falsy like an absent value and is
  \<open>None\<close> here.
\<close>

record filters =
  f_category :: "string option"
  f_municipality :: "string option"
  f_status :: "string option"
  f_authorId :: "string option"
  f_search :: "string option"
  f_sortBy :: "string option"
  f_limit :: "int option"
  f_offset :: "int option"

record query_result =
  r_grievances :: "(grievance \<times> string option) list"
  r_total :: nat

subsection \<open>The database's \<open>ILIKE\<close>\<close>

text \<open>
  \<open>x ILIKE p\<close> matches the whole of \<open>x\<close> against the pattern \<open>p\<close> without regard to
  the case of the letters A to Z. In a pattern \<open>%\<close> stands for any sequence of characters, \<open>_\<close> for any single
  character, and a backslash makes the character after it literal. The patterns built
  by the query end in \<open>%\<close>, so a pattern never ends in a lone backslash.
\<close>

definition lower_char :: "char \<Rightarrow> char" where
  "lower_char c =
     (case map_of (zip ''ABCDEFGHIJKLMNOPQRSTUVWXYZ'' ''abcdefghijklmnopqrstuvwxyz'') c of
        None \<Rightarrow> c
      | Some l \<Rightarrow> l)"

definition lower :: "string \<Rightarrow> string" where
  "lower s = map lower_char s"

fun like_match :: "string \<Rightarrow> string \<Rightarrow> bool" where
  "like_match [] s = (s = [])"
| "like_match (p # ps) [] = (p = CHR ''%'' \<and> like_match ps [])"
| "like_match (p # ps) (c # cs) =
     (if p = CHR ''%'' then like_match ps (c # cs) \<or> like_match (p # ps) cs
      else if p = CHR ''_'' then like_match ps cs
      else if p = CHR 0x5C then (case ps of [] \<Rightarrow> False | q # qs \<Rightarrow> c = q \<and> like_match qs cs)
      else c = p \<and> like_match ps cs)"

definition ilike :: "string \<Rightarrow> string \<Rightarrow> bool" where
  "ilike x p = like_match (lower p) (lower x)"

text \<open>A NULL operand makes the comparison NULL, which selects nothing.\<close>

fun ilike_nullable :: "string option \<Rightarrow> string \<Rightarrow> bool" where
  "ilike_nullable None p = False"
| "ilike_nullable (Some x) p = ilike x p"

subsection \<open>Filter conditions\<close>

definition search_condition :: "string \<Rightarrow> grievance \<Rightarrow> bool" where
  "search_condition search g =
     (let searchTerm = ''%'' @ search @ ''%''
      in ilike (g_title g) searchTerm \<or> ilike (g_description g) searchTerm
         \<or> ilike_nullable (g_location g) searchTerm)"

definition active_filter :: "string option \<Rightarrow> bool" where
  "active_filter v = (truthy v \<and> v \<noteq> Some ''all'')"

definition grievance_conditions :: "filters \<Rightarrow> (grievance \<Rightarrow> bool) list" where
  "grievance_conditions f =
     (if active_filter (f_category f) then [\<lambda>g. Some (g_category g) = f_category f] else [])
     @ (if active_filter (f_municipality f) then [\<lambda>g. Some (g_municipality g) = f_municipality f] else [])
     @ (if active_filter (f_status f) then [\<lambda>g. Some (status_label (g_status g)) = f_status f] else [])
     @ (if truthy (f_authorId f) then [\<lambda>g. Some (g_authorId g) = f_authorId f] else [])
     @ (case f_search f of
          Some search \<Rightarrow> if search \<noteq> [] then [search_condition search] else []
        | None \<Rightarrow> [])"

definition where_conditions :: "(grievance \<Rightarrow> bool) list \<Rightarrow> grievance list \<Rightarrow> grievance list" where
  "where_conditions conditions rows =
     (if length conditions > 0 then filter (and_conditions conditions) rows else rows)"

text \<open>
  The values of the conditions are read by the database, in the order of the conditions,
  before it runs the query. The status column has the enum type, so the value compared
  with it is read as an enum label and rejected when it is none.
\<close>

definition condition_error :: "filters \<Rightarrow> db_error option" where
  "condition_error f =
     first_error
       [if active_filter (f_category f) then Option.bind (f_category f) read_text else None,
        if active_filter (f_municipality f) then Option.bind (f_municipality f) read_text else None,
        if active_filter (f_status f) then Option.bind (f_status f) read_status else None,
        if truthy (f_authorId f) then Option.bind (f_authorId f) read_text else None,
        if truthy (f_search f) then Option.bind (f_search f) read_text else None]"

subsection \<open>Sort orders\<close>

text \<open>
  The switch on \<open>sortBy\<close> names the columns of \<open>ORDER BY\<close>: rows come out in ascending
  order of the sort key, \<open>desc(e)\<close> is the ascending order on the negated value, and the
  two columns of \<open>urgent\<close> are the lexicographic order on the pair. The clause names no
  further column, and among rows that tie on the key the database returns them as it
  happens to read them, which the code does not determine. That reading order is the
  parameter \<open>scan\<close>, a rearrangement of the selected rows; the result is the stable sort
  of the rows so read.

  \<open>upvotes - downvotes\<close> is computed by the database on 32-bit integers, for every
  selected row, and the query fails when a difference does not fit.
\<close>

definition order_by :: "(grievance list \<Rightarrow> grievance list) \<Rightarrow> string option \<Rightarrow> grievance list \<Rightarrow> db_error + grievance list" where
  "order_by scan sortBy rows =
     (if sortBy = Some ''oldest'' then Inr (sort_key g_timestamp (scan rows))
      else if sortBy = Some ''upvotes-high''
        then (if list_all (\<lambda>g. fits 32 (g_upvotes g - g_downvotes g)) rows
              then Inr (sort_key (\<lambda>g. - (g_upvotes g - g_downvotes g)) (scan rows))
              else Inl numeric_value_out_of_range)
      else if sortBy = Some ''upvotes-low''
        then (if list_all (\<lambda>g. fits 32 (g_upvotes g - g_downvotes g)) rows
              then Inr (sort_key (\<lambda>g. g_upvotes g - g_downvotes g) (scan rows))
              else Inl numeric_value_out_of_range)
      else if sortBy = Some ''urgent''
        then Inr (sort_key (\<lambda>g. (if g_status g = Urgent then 0 else 1 :: int, - g_timestamp g))
                    (scan rows))
      else Inr (sort_key (\<lambda>g. - g_timestamp g) (scan rows)))"

subsection \<open>Pagination and the query\<close>

text \<open>
  \<open>limit\<close> and \<open>offset\<close> are applied only when truthy (not 0); the statement then reads
  \<open>... LIMIT l OFFSET o\<close>, which skips the first \<open>o\<close> rows and returns the next \<open>l\<close>.
  Both are read as 64-bit integers when the statement is sent (the limit first), and a
  negative one is rejected when the statement runs (the offset first), before any row is
  sorted.
\<close>

definition applied :: "int option \<Rightarrow> int option" where
  "applied n = (case n of None \<Rightarrow> None | Some v \<Rightarrow> if v \<noteq> 0 then Some v else None)"

definition negative_count :: "string \<Rightarrow> int option \<Rightarrow> db_error option" where
  "negative_count code n =
     (case n of None \<Rightarrow> None | Some v \<Rightarrow> if v < 0 then Some (DbError code) else None)"

definition pagination_error :: "int option \<Rightarrow> int option \<Rightarrow> db_error option" where
  "pagination_error limitArg offsetArg =
     first_error
       [Option.bind (applied limitArg) (read_integer 64),
        Option.bind (applied offsetArg) (read_integer 64),
        negative_count ''2201X'' (applied offsetArg),
        negative_count ''2201W'' (applied limitArg)]"

fun skip_rows :: "int \<Rightarrow> 'r list \<Rightarrow> 'r list" where
  "skip_rows k [] = []"
| "skip_rows k (r # rows) = (if k \<le> 0 then r # rows else skip_rows (k - 1) rows)"

fun first_rows :: "int \<Rightarrow> 'r list \<Rightarrow> 'r list" where
  "first_rows l [] = []"
| "first_rows l (r # rows) = (if l \<le> 0 then [] else r # first_rows (l - 1) rows)"

definition paginate :: "int option \<Rightarrow> int option \<Rightarrow> 'r list \<Rightarrow> 'r list" where
  "paginate limitArg offsetArg rows =
     (let skipped = (case applied offsetArg of Some k \<Rightarrow> skip_rows k rows | None \<Rightarrow> rows)
      in case applied limitArg of Some l \<Rightarrow> first_rows l skipped | None \<Rightarrow> skipped)"

text \<open>
  The count query runs first, with the conditions and neither order nor pagination; the
  list query follows, on the rows as the database reads them (\<open>scan\<close>).
\<close>

definition run_query :: "(grievance list \<Rightarrow> grievance list) \<Rightarrow> filters \<Rightarrow> grievance list \<Rightarrow> db_error + grievance list" where
  "run_query scan f rows =
     (case pagination_error (f_limit f) (f_offset f) of
        Some e \<Rightarrow> Inl e
      | None \<Rightarrow> map_sum id (paginate (f_limit f) (f_offset f)) (order_by scan (f_sortBy f) rows))"

definition getGrievances :: "(grievance list \<Rightarrow> grievance list) \<Rightarrow> db \<Rightarrow> filters \<Rightarrow> db_error + query_result" where
  "getGrievances scan d f =
     (case condition_error f of
        Some e \<Rightarrow> Inl e
      | None \<Rightarrow>
          (let conditions = grievance_conditions f;
               total = length (where_conditions conditions (grievances d))
           in case run_query scan f (where_conditions conditions (grievances d)) of
                Inl e \<Rightarrow> Inl e
              | Inr result \<Rightarrow>
                  Inr \<lparr>r_grievances = map (\<lambda>g. (g, author_username d g)) result,
                       r_total = total\<rparr>))"

section \<open>Updating a grievance (updateGrievance, PATCH /api/grievances/:id)\<close>

text \<open>
  \<open>Partial<Grievance>\<close>, as it arrives in the body of a request: every column may be
  present or absent; a nullable column that is present may be set to NULL. \<open>status\<close>
  arrives as text and is read as an enum label by the database, the counters arrive as
  numbers, and \<open>timestamp\<close> and \<open>updatedAt\<close> arrive as JSON text, since a body carries
  no \<open>Date\<close>.
\<close>

record grievance_updates =
  up_id :: "string option"
  up_title :: "string option"
  up_description :: "string option"
  up_category :: "string option"
  up_municipality :: "string option"
  up_location :: "string option option"
  up_authorId :: "string option"
  up_timestamp :: "string option"
  up_upvotes :: "int option"
  up_downvotes :: "int option"
  up_status :: "string option"
  up_imageUrl :: "string option option"
  up_updatedAt :: "string option"

fun or_keep :: "'a option \<Rightarrow> 'a \<Rightarrow> 'a" where
  "or_keep None old = old"
| "or_keep (Some new) old = new"

text \<open>
  \<open>set({ ...updates, updatedAt: new Date() })\<close>: the clock overrides \<open>updates.updatedAt\<close>.
  A \<open>timestamp\<close> column is written by calling \<open>toISOString\<close> on the value, which a JSON
  value does not have: an update whose body carries \<open>timestamp\<close> throws a \<open>TypeError\<close>
  before anything is sent, so the statement that is sent never sets that column.
\<close>

datatype update_error = TypeError | DatabaseError db_error

definition set_columns :: "grievance_updates \<Rightarrow> int \<Rightarrow> grievance \<Rightarrow> grievance" where
  "set_columns updates now g =
     \<lparr>g_id = or_keep (up_id updates) (g_id g),
      g_title = or_keep (up_title updates) (g_title g),
      g_description = or_keep (up_description updates) (g_description g),
      g_category = or_keep (up_category updates) (g_category g),
      g_municipality = or_keep (up_municipality updates) (g_municipality g),
      g_location = or_keep (up_location updates) (g_location g),
      g_authorId = or_keep (up_authorId updates) (g_authorId g),
      g_timestamp = g_timestamp g,
      g_upvotes = or_keep (up_upvotes updates) (g_upvotes g),
      g_downvotes = or_keep (up_downvotes updates) (g_downvotes g),
      g_status = or_keep (Option.bind (up_status updates) parse_status) (g_status g),
      g_imageUrl = or_keep (up_imageUrl updates) (g_imageUrl g),
      g_updatedAt = now\<rparr>"

definition grievance_referenced :: "db \<Rightarrow> string \<Rightarrow> bool" where
  "grievance_referenced d gid =
     (gid \<in> set (map c_grievanceId (comments d)) \<or>
      Some gid \<in> set (map v_grievanceId (userVotes d)) \<or>
      gid \<in> set (map a_grievanceId (assignments d)))"

text \<open>
  The values of the statement are read in the order of the columns, the compared id last:
  a text that holds NUL, a counter that is no 32-bit integer or a status that is no enum
  label fails the update. When a row matches, the update also fails when the new primary
  key is taken, when the new author is no user, or when the old key is still referenced
  and would change.
\<close>

definition parameter_error :: "string \<Rightarrow> grievance_updates \<Rightarrow> db_error option" where
  "parameter_error gid updates =
     first_error
       [Option.bind (up_id updates) read_text,
        Option.bind (up_title updates) read_text,
        Option.bind (up_description updates) read_text,
        Option.bind (up_category updates) read_text,
        Option.bind (up_municipality updates) read_text,
        Option.bind (up_location updates) (\<lambda>location. Option.bind location read_text),
        Option.bind (up_authorId updates) read_text,
        Option.bind (up_upvotes updates) (read_integer 32),
        Option.bind (up_downvotes updates) (read_integer 32),
        Option.bind (up_status updates) read_status,
        Option.bind (up_imageUrl updates) (\<lambda>imageUrl. Option.bind imageUrl read_text),
        read_text gid]"

definition run_update :: "db \<Rightarrow> string \<Rightarrow> grievance_updates \<Rightarrow> int \<Rightarrow> db_error + (db \<times> grievance option)" where
  "run_update d gid updates now =
     (let matched = filter (\<lambda>g. g_id g = gid) (grievances d);
          key_changes = (case up_id updates of None \<Rightarrow> False | Some x \<Rightarrow> x \<noteq> gid)
      in if matched = [] then Inr (d, None)
         else if key_changes \<and>
                 (length matched > 1 \<or> or_keep (up_id updates) gid \<in> set (map g_id (grievances d)))
           then Inl unique_violation
         else if (case up_authorId updates of
                    None \<Rightarrow> False | Some a \<Rightarrow> a \<notin> set (map u_id (users d)))
                 \<or> (key_changes \<and> grievance_referenced d gid)
           then Inl foreign_key_violation
         else Inr (d\<lparr>grievances :=
                      map (\<lambda>g. if g_id g = gid then set_columns updates now g else g)
                          (grievances d)\<rparr>,
                   Some (set_columns updates now (hd matched))))"

definition updateGrievance :: "db \<Rightarrow> string \<Rightarrow> grievance_updates \<Rightarrow> int \<Rightarrow> update_error + (db \<times> grievance option)" where
  "updateGrievance d gid updates now =
     (if up_timestamp updates \<noteq> None then Inl TypeError
      else case parameter_error gid updates of
             Some e \<Rightarrow> Inl (DatabaseError e)
           | None \<Rightarrow> map_sum DatabaseError id (run_update d gid updates now))"

definition update_response :: "db \<Rightarrow> update_error + (db \<times> grievance option) \<Rightarrow> db \<times> response" where
  "update_response d r =
     (case r of
        Inl e \<Rightarrow> (d, Response 500 (ErrorBody ''Failed to update grievance''))
      | Inr (d', updatedGrievance) \<Rightarrow> (d', Response 200 (GrievanceBody updatedGrievance)))"

definition patch_grievance_handler :: "db \<Rightarrow> session \<Rightarrow> string \<Rightarrow> string \<Rightarrow> grievance_updates \<Rightarrow> int \<Rightarrow> db \<times> response" where
  "patch_grievance_handler d sess uid gid updates now =
     (case getGrievance d gid of
        None \<Rightarrow> (d, Response 404 (ErrorBody ''Grievance not found''))
      | Some grievance \<Rightarrow>
          if g_authorId (fst grievance) \<noteq> uid \<and> userType sess \<noteq> Some ''admin''
          then (d, Response 403 (ErrorBody ''Permission denied''))
          else update_response d (updateGrievance d gid updates now))"

definition patch_grievance :: "db \<Rightarrow> session \<Rightarrow> string \<Rightarrow> grievance_updates \<Rightarrow> int \<Rightarrow> db \<times> response" where
  "patch_grievance d sess gid updates now =
     (case userId sess of
        None \<Rightarrow> (d, Response 401 (ErrorBody ''Authentication required''))
      | Some uid \<Rightarrow>
          if uid = [] then (d, Response 401 (ErrorBody ''Authentication required''))
          else patch_grievance_handler d sess uid gid updates now)"

section \<open>Priority scorer (admin.tsx, getPriorityScore)\<close>

text \<open>
  The score is a JavaScript number; it is computed here in exact real arithmetic. The
  clock (\<open>new Date().getTime()\<close>) is the parameter \<open>now\<close>, in milliseconds like the
  timestamp.
\<close>

definition getPriorityScore :: "grievance \<Rightarrow> int \<Rightarrow> real" where
  "getPriorityScore g now =
     (let baseScore = g_upvotes g - g_downvotes g;
          urgentMultiplier = (if g_status g = Urgent then 2 else 1);
          ageHours = real_of_int (now - g_timestamp g) / (1000 * 60 * 60);
          agePenalty = real_of_int \<lfloor>ageHours / 24\<rfloor> * 0.1
      in max 0 (real_of_int (baseScore * urgentMultiplier) - agePenalty))"

section \<open>The specification's formulas\<close>

text \<open>
  The priority score in the specification's words:
  \<open>score = max(0, (upvotes - downvotes) * urgentMultiplier - agePenalty)\<close> with
  \<open>urgentMultiplier = 2 if status = urgent else 1\<close> and
  \<open>agePenalty = floor(ageInHours / 24) * 0.1\<close>.
\<close>

definition spec_score :: "int \<Rightarrow> int \<Rightarrow> bool \<Rightarrow> real \<Rightarrow> real" where
  "spec_score upvotes downvotes urgent ageInHours =
     (let urgentMultiplier = (if urgent then 2 else 1);
          agePenalty = real_of_int \<lfloor>ageInHours / 24\<rfloor> * 0.1
      in max 0 (real_of_int (upvotes - downvotes) * urgentMultiplier - agePenalty))"

definition age_in_hours :: "grievance \<Rightarrow> int \<Rightarrow> real" where
  "age_in_hours g now = real_of_int (now - g_timestamp g) / 3600000"

section \<open>An example store\<close>

definition alice :: user where
  "alice = \<lparr>u_id = ''u1'', u_username = ''alice'', u_password = ''x'', u_email = None,
            u_phone = None, u_municipality = ''Pune'', u_type = Citizen, u_department = None,
            u_createdAt = 0\<rparr>"

definition bob :: user where
  "bob = \<lparr>u_id = ''u2'', u_username = ''bob'', u_password = ''y'', u_email = None,
          u_phone = None, u_municipality = ''Pune'', u_type = Admin,
          u_department = Some ''Roads'', u_createdAt = 0\<rparr>"

definition carol :: user where
  "carol = \<lparr>u_id = ''u3'', u_username = ''carol'', u_password = ''z'', u_email = None,
            u_phone = None, u_municipality = ''Pune'', u_type = Citizen, u_department = None,
            u_createdAt = 0\<rparr>"

definition pothole :: grievance where
  "pothole = \<lparr>g_id = ''g1'', g_title = ''Pothole'', g_description = ''Big hole'',
              g_category = ''roads'', g_municipality = ''Pune'', g_location = None,
              g_authorId = ''u1'', g_timestamp = 1000, g_upvotes = 0, g_downvotes = 0,
              g_status = Pending, g_imageUrl = None, g_updatedAt = 1000\<rparr>"

definition remark :: comment where
  "remark = \<lparr>c_id = ''c1'', c_grievanceId = ''g1'', c_authorId = ''u3'', c_text = ''Same here'',
             c_timestamp = 2000, c_upvotes = 0\<rparr>"

definition store0 :: db where
  "store0 = \<lparr>users = [alice, bob, carol], grievances = [pothole], comments = [remark],
             userVotes = [], assignments = []\<rparr>"

definition alice_session :: session where
  "alice_session = \<lparr>userId = Some ''u1'', userType = Some ''citizen''\<rparr>"



text \<open>A request body with no column, to which single columns are added.\<close>

definition no_updates :: grievance_updates where
  "no_updates = \<lparr>up_id = None, up_title = None, up_description = None, up_category = None,
      up_municipality = None, up_location = None, up_authorId = None, up_timestamp = None,
      up_upvotes = None, up_downvotes = None, up_status = None, up_imageUrl = None,
      up_updatedAt = None\<rparr>"

section \<open>Votes of one user on one target\<close>

text \<open>
  A request names one target: a grievance id (and no comment id) or a comment id (and no
  grievance id), and route parameters are never empty. \<open>vote_of\<close> holds of the rows that
  are the user's vote on that target.
\<close>

definition one_target :: "string option \<Rightarrow> string option \<Rightarrow> bool" where
  "one_target grievanceId commentId =
     ((truthy grievanceId \<and> commentId = None) \<or> (grievanceId = None \<and> truthy commentId))"

definition vote_of :: "string \<Rightarrow> string option \<Rightarrow> string option \<Rightarrow> user_vote \<Rightarrow> bool" where
  "vote_of uid grievanceId commentId v =
     (v_userId v = uid \<and>
      (case grievanceId of Some g \<Rightarrow> v_grievanceId v = Some g | None \<Rightarrow> v_commentId v = commentId))"

section \<open>The toggle protocol in the specification's words\<close>

text \<open>
  What a vote of kind \<open>k\<close> by user \<open>uid\<close> does to the vote rows: with no vote on the
  target a row of kind \<open>k\<close> is added; a vote of kind \<open>k\<close> is removed; a vote of the other
  kind has its kind overwritten in place. \<open>resulting_vote\<close> is the user's vote afterwards.
\<close>

definition toggled_votes :: "user_vote list \<Rightarrow> string \<Rightarrow> string option \<Rightarrow> string option \<Rightarrow> string \<Rightarrow> string \<Rightarrow> int \<Rightarrow> user_vote list" where
  "toggled_votes votes uid grievanceId commentId k uuid now =
     (case List.find (vote_of uid grievanceId commentId) votes of
        None \<Rightarrow>
          votes @ [\<lparr>v_id = uuid, v_userId = uid, v_grievanceId = grievanceId,
                    v_commentId = commentId, v_voteType = k, v_timestamp = now\<rparr>]
      | Some ev \<Rightarrow>
          if v_voteType ev = k then filter (\<lambda>v. \<not> vote_of uid grievanceId commentId v) votes
          else map (\<lambda>v. if vote_of uid grievanceId commentId v
                         then v\<lparr>v_voteType := k, v_timestamp := now\<rparr> else v) votes)"

definition resulting_vote :: "user_vote list \<Rightarrow> string \<Rightarrow> string option \<Rightarrow> string option \<Rightarrow> string \<Rightarrow> string option" where
  "resulting_vote votes uid grievanceId commentId k =
     (case List.find (vote_of uid grievanceId commentId) votes of
        None \<Rightarrow> Some k
      | Some ev \<Rightarrow> if v_voteType ev = k then None else Some k)"

text \<open>
  The example store after alice's vote up on grievance \<open>g1\<close>, and her vote once it has
  been turned into a vote down.
\<close>

definition alice_up :: user_vote where
  "alice_up = \<lparr>v_id = ''v1'', v_userId = ''u1'', v_grievanceId = Some ''g1'', v_commentId = None,
               v_voteType = ''up'', v_timestamp = 5000\<rparr>"

definition store1 :: db where
  "store1 = store0\<lparr>grievances := [pothole\<lparr>g_upvotes := 1\<rparr>], userVotes := [alice_up]\<rparr>"

definition alice_down :: user_vote where
  "alice_down = \<lparr>v_id = ''v1'', v_userId = ''u1'', v_grievanceId = Some ''g1'', v_commentId = None,
               v_voteType = ''down'', v_timestamp = 6000\<rparr>"

text \<open>
  The two UNIQUE constraints of \<open>user_votes\<close> as a property of the rows: no two rows with
  the same user and the same (non-NULL) grievance, or the same user and the same
  (non-NULL) comment.
\<close>

definition unique_votes :: "user_vote list \<Rightarrow> bool" where
  "unique_votes votes =
     (distinct (map (\<lambda>v. (v_userId v, v_grievanceId v)) (filter (\<lambda>v. v_grievanceId v \<noteq> None) votes))
      \<and> distinct (map (\<lambda>v. (v_userId v, v_commentId v)) (filter (\<lambda>v. v_commentId v \<noteq> None) votes)))"

section \<open>The counter invariant\<close>




definition votes_checked :: "db \<Rightarrow> bool" where
  "votes_checked d = list_all vote_target_check (userVotes d)"



section \<open>Rows with their counters erased\<close>

text \<open>Two grievances agree on every column but the counters when they are equal after
  \<open>without_counters\<close>; likewise two comments after \<open>without_upvotes\<close>.\<close>

definition without_counters :: "grievance \<Rightarrow> grievance" where
  "without_counters g = g\<lparr>g_upvotes := 0, g_downvotes := 0\<rparr>"

definition without_upvotes :: "comment \<Rightarrow> comment" where
  "without_upvotes c = c\<lparr>c_upvotes := 0\<rparr>"

section \<open>The filter predicate in the specification's words\<close>

text \<open>
  \<open>contains_ci t x\<close>: the text \<open>t\<close> occurs in \<open>x\<close>, case-insensitively. A wildcard is one of
  the three characters that are not literal in a LIKE pattern (percent, underscore and
  backslash); \<open>plain_text\<close> has none of them.
\<close>

definition wildcard :: "char \<Rightarrow> bool" where
  "wildcard c = (c = CHR ''%'' \<or> c = CHR ''_'' \<or> c = CHR 0x5C)"

definition plain_text :: "string \<Rightarrow> bool" where
  "plain_text s = list_all (\<lambda>c. \<not> wildcard c) s"

definition contains_ci :: "string \<Rightarrow> string \<Rightarrow> bool" where
  "contains_ci t x = sublist (lower t) (lower x)"

text \<open>
  The claimed predicate: a category, municipality or status filter that is absent or
  \<open>all\<close> constrains nothing, any other value requires equality; a search text matches
  when it occurs case-insensitively in the title, the description or the location.
\<close>

definition spec_field_filter :: "string option \<Rightarrow> string \<Rightarrow> bool" where
  "spec_field_filter v x = (case v of None \<Rightarrow> True | Some s \<Rightarrow> s = ''all'' \<or> x = s)"

definition spec_contains :: "string \<Rightarrow> grievance \<Rightarrow> bool" where
  "spec_contains t g =
     (contains_ci t (g_title g) \<or> contains_ci t (g_description g)
      \<or> (case g_location g of None \<Rightarrow> False | Some l \<Rightarrow> contains_ci t l))"

definition spec_matches :: "filters \<Rightarrow> grievance \<Rightarrow> bool" where
  "spec_matches f g =
     (spec_field_filter (f_category f) (g_category g)
      \<and> spec_field_filter (f_municipality f) (g_municipality g)
      \<and> spec_field_filter (f_status f) (status_label (g_status g))
      \<and> (case f_search f of None \<Rightarrow> True | Some t \<Rightarrow> spec_contains t g))"

text \<open>
  The predicate of the query as the code builds it: a field filter constrains nothing when
  it is absent, the empty string or \<open>all\<close>; the search value, when not empty, is put
  between two \<open>%\<close> and used as an \<open>ILIKE\<close> pattern.
\<close>

definition field_filter :: "string option \<Rightarrow> string \<Rightarrow> bool" where
  "field_filter v x = (v = None \<or> v = Some [] \<or> v = Some ''all'' \<or> v = Some x)"

definition matches :: "filters \<Rightarrow> grievance \<Rightarrow> bool" where
  "matches f g =
     (field_filter (f_category f) (g_category g)
      \<and> field_filter (f_municipality f) (g_municipality g)
      \<and> field_filter (f_status f) (status_label (g_status g))
      \<and> (f_authorId f = None \<or> f_authorId f = Some [] \<or> f_authorId f = Some (g_authorId g))
      \<and> (case f_search f of
            None \<Rightarrow> True
          | Some t \<Rightarrow> t = [] \<or> ilike (g_title g) (''%'' @ t @ ''%'')
                      \<or> ilike (g_description g) (''%'' @ t @ ''%'')
                      \<or> ilike_nullable (g_location g) (''%'' @ t @ ''%'')))"

definition no_filters :: filters where
  "no_filters = \<lparr>f_category = None, f_municipality = None, f_status = None, f_authorId = None,
                 f_search = None, f_sortBy = None, f_limit = None, f_offset = None\<rparr>"

text \<open>A feed of three grievances with net votes 5, -1 and 3, stored in this order.\<close>

definition ga :: grievance where
  "ga = pothole\<lparr>g_id := ''ga'', g_upvotes := 5, g_timestamp := 1000\<rparr>"

definition gb :: grievance where
  "gb = pothole\<lparr>g_id := ''gb'', g_title := ''Streetlight'', g_description := ''Lamp is out'',
                g_category := ''lighting'', g_downvotes := 1, g_timestamp := 3000,
                g_status := Urgent\<rparr>"

definition gc :: grievance where
  "gc = pothole\<lparr>g_id := ''gc'', g_title := ''Garbage'', g_description := ''Not collected'',
                g_category := ''waste'', g_upvotes := 3, g_timestamp := 2000\<rparr>"

definition feed :: db where
  "feed = store0\<lparr>grievances := [ga, gb, gc]\<rparr>"

text \<open>
  Two ways in which a database may read the selected rows: in the order in which they
  were stored, and in the reverse of it.
\<close>

definition stored_order :: "grievance list \<Rightarrow> grievance list" where
  "stored_order rows = rows"

definition reverse_order :: "grievance list \<Rightarrow> grievance list" where
  "reverse_order rows = rev rows"

text \<open>
  A store of two grievances with the same timestamp, and the example store once alice
  has sent a PATCH on her grievance with the body \<open>{upvotes: 2147483647, downvotes: -1}\<close>.
\<close>

definition gd :: grievance where
  "gd = gc\<lparr>g_id := ''gd'', g_title := ''Litter''\<rparr>"

definition twins :: db where
  "twins = store0\<lparr>grievances := [gc, gd]\<rparr>"

definition store_skewed :: db where
  "store_skewed =
     fst (patch_grievance store0 alice_session ''g1''
            (no_updates\<lparr>up_upvotes := Some 2147483647, up_downvotes := Some (- 1)\<rparr>) 7000)"

section \<open>The sort orders in the specification's words\<close>

text \<open>
  Net votes are upvotes minus downvotes. \<open>urgent_first a b\<close>: \<open>a\<close> may come before \<open>b\<close>
  when urgent rows come first and, among rows that are both urgent or both not, the newer
  comes first. Every sort key other than \<open>oldest\<close>, \<open>upvotes-high\<close>, \<open>upvotes-low\<close> and
  \<open>urgent\<close> (an absent one too) takes the default branch of the switch, \<open>newest\<close>.
\<close>

definition net_votes :: "grievance \<Rightarrow> int" where
  "net_votes g = g_upvotes g - g_downvotes g"

definition urgent_first :: "grievance \<Rightarrow> grievance \<Rightarrow> bool" where
  "urgent_first a b =
     ((g_status a = Urgent \<and> g_status b \<noteq> Urgent)
      \<or> ((g_status a = Urgent) = (g_status b = Urgent) \<and> g_timestamp a \<ge> g_timestamp b))"

definition other_sort_key :: "string option \<Rightarrow> bool" where
  "other_sort_key s =
     (s \<noteq> Some ''oldest'' \<and> s \<noteq> Some ''upvotes-high'' \<and> s \<noteq> Some ''upvotes-low''
      \<and> s \<noteq> Some ''urgent'')"

section \<open>The queries the database accepts\<close>

text \<open>
  A limit or an offset is accepted when it is absent or a number from 0 to \<open>2^63 - 1\<close>.
  The filters and the sort key are accepted when no filter value holds the character
  NUL, the status filter is absent, empty, \<open>all\<close> or a status label and, under the two
  sort keys on net votes, the net votes of every matching grievance fit 32 bits.
\<close>

definition readable :: "string option \<Rightarrow> bool" where
  "readable v = (case v of None \<Rightarrow> True | Some s \<Rightarrow> CHR 0x00 \<notin> set s)"

definition status_filter_rejected :: "filters \<Rightarrow> bool" where
  "status_filter_rejected f =
     (active_filter (f_status f) \<and>
      (case f_status f of None \<Rightarrow> False | Some s \<Rightarrow> parse_status s = None))"

definition accepted_count :: "int option \<Rightarrow> bool" where
  "accepted_count n = (case n of None \<Rightarrow> True | Some v \<Rightarrow> 0 \<le> v \<and> v \<le> 2 ^ 63 - 1)"

definition sorts_by_net_votes :: "string option \<Rightarrow> bool" where
  "sorts_by_net_votes s = (s = Some ''upvotes-high'' \<or> s = Some ''upvotes-low'')"

definition filters_accepted :: "db \<Rightarrow> filters \<Rightarrow> bool" where
  "filters_accepted d f =
     (readable (f_category f) \<and> readable (f_municipality f) \<and> readable (f_authorId f)
      \<and> readable (f_search f)
      \<and> \<not> status_filter_rejected f
      \<and> (sorts_by_net_votes (f_sortBy f) \<longrightarrow>
           list_all (\<lambda>g. fits 32 (net_votes g)) (filter (matches f) (grievances d))))"

definition query_accepted :: "db \<Rightarrow> filters \<Rightarrow> bool" where
  "query_accepted d f =
     (filters_accepted d f \<and> accepted_count (f_limit f) \<and> accepted_count (f_offset f))"

section \<open>Request bodies that change no key\<close>


section \<open>Priority score\<close>

lemma non_positive_net_clamped:
  assumes net: "g_upvotes g - g_downvotes g \<le> 0" and age: "0 \<le> age_in_hours g now"
  shows "getPriorityScore g now = 0"
proof -
  define m :: int where "m = (if g_status g = Urgent then 2 else 1)"
  define B where "B = real_of_int ((g_upvotes g - g_downvotes g) * m)"
  define P where
    "P = real_of_int \<lfloor>real_of_int (now - g_timestamp g) / (1000 * 60 * 60) / 24\<rfloor> * 0.1"
  have eq: "getPriorityScore g now = max 0 (B - P)"
    unfolding getPriorityScore_def Let_def B_def P_def m_def ..
  have "0 \<le> m" by (simp add: m_def)
  with net have "(g_upvotes g - g_downvotes g) * m \<le> 0" by (simp add: mult_le_0_iff)
  then have B: "B \<le> 0" unfolding B_def by linarith
  from age have "0 \<le> real_of_int (now - g_timestamp g) / (1000 * 60 * 60) / 24"
    by (simp add: age_in_hours_def)
  then have "0 \<le> \<lfloor>real_of_int (now - g_timestamp g) / (1000 * 60 * 60) / 24\<rfloor>" by simp
  then have P: "0 \<le> P" unfolding P_def by simp
  from B P show ?thesis unfolding eq by simp
qed

text \<open>
  C4, as the claim states it, fails. The age is the clock of the admin's browser minus
  the grievance's timestamp; with a clock one millisecond before the timestamp the age is
  negative, its floor in days is -1 and the penalty is -0.1, so the grievance \<open>Pothole\<close>
  with net votes 0 scores 0.1, not 0.
\<close>

theorem negative_age_counterexample:
  "g_upvotes pothole - g_downvotes pothole \<le> 0
   \<and> age_in_hours pothole 999 < 0
   \<and> getPriorityScore pothole 999 = 0.1"
proof -
  have "\<lfloor>- 1 / 86400000 :: real\<rfloor> = - 1" by (simp add: floor_eq_iff)
  then show ?thesis
    by (simp add: getPriorityScore_def pothole_def age_in_hours_def Let_def)
qed

text \<open>
  C4, amended. The score the admin page computes is the specification's formula at the
  grievance's vote counts, urgency and age in hours. A grievance with 5 upvotes, 2
  downvotes, status urgent and an age of 48 hours scores 5.8, and a grievance whose net
  votes are not positive and whose age is not negative scores 0 whatever its status.
\<close>

theorem priority_score_formula:
  "getPriorityScore g now =
     spec_score (g_upvotes g) (g_downvotes g) (g_status g = Urgent) (age_in_hours g now)
   \<and> (g_upvotes g = 5 \<and> g_downvotes g = 2 \<and> g_status g = Urgent \<and> age_in_hours g now = 48
        \<longrightarrow> getPriorityScore g now = 5.8)
   \<and> (g_upvotes g - g_downvotes g \<le> 0 \<and> 0 \<le> age_in_hours g now
        \<longrightarrow> getPriorityScore g now = 0)"
proof (intro conjI impI)
  show "getPriorityScore g now =
     spec_score (g_upvotes g) (g_downvotes g) (g_status g = Urgent) (age_in_hours g now)"
    by (simp add: getPriorityScore_def spec_score_def age_in_hours_def Let_def)
next
  assume "g_upvotes g = 5 \<and> g_downvotes g = 2 \<and> g_status g = Urgent \<and> age_in_hours g now = 48"
  then show "getPriorityScore g now = 5.8"
    by (simp add: getPriorityScore_def age_in_hours_def Let_def)
next
  assume "g_upvotes g - g_downvotes g \<le> 0 \<and> 0 \<le> age_in_hours g now"
  then show "getPriorityScore g now = 0"
    by (simp add: non_positive_net_clamped)
qed

theorem priority_score_formula_witness:
  "getPriorityScore (pothole\<lparr>g_upvotes := 5, g_downvotes := 2, g_status := Urgent\<rparr>)
     (1000 + 48 * 3600000) = 5.8
   \<and> getPriorityScore (pothole\<lparr>g_upvotes := 1, g_downvotes := 3, g_status := Urgent\<rparr>)
     (1000 + 72 * 3600000) = 0"
  using priority_score_formula
          [of "pothole\<lparr>g_upvotes := 5, g_downvotes := 2, g_status := Urgent\<rparr>"
              "1000 + 48 * 3600000"]
        priority_score_formula
          [of "pothole\<lparr>g_upvotes := 1, g_downvotes := 3, g_status := Urgent\<rparr>"
              "1000 + 72 * 3600000"]
  by (simp add: pothole_def age_in_hours_def)

section \<open>Who may change a grievance's status\<close>




lemma first_error_none: "first_error es = None \<longleftrightarrow> (\<forall>e \<in> set es. e = None)"
  by (induction es rule: first_error.induct) auto


lemma parse_status_readable: "parse_status s \<noteq> None \<Longrightarrow> CHR 0x00 \<notin> set s"
  by (auto simp: parse_status_def split: if_splits)

lemma read_status_none: "read_status s = None \<longleftrightarrow> parse_status s \<noteq> None"
  using parse_status_readable[of s] by (auto simp: read_status_def read_text_def)






section \<open>The vote store on one target\<close>

lemma find_append_new: "List.find P xs = None \<Longrightarrow> P x \<Longrightarrow> List.find P (xs @ [x]) = Some x"
  by (induction xs) (auto split: if_splits)

lemma find_filter_not: "List.find P (filter (\<lambda>x. \<not> P x) xs) = None"
  by (induction xs) auto

lemma find_map_if:
  "(\<And>x. P (f x) = P x) \<Longrightarrow>
   List.find P (map (\<lambda>x. if P x then f x else x) xs) = map_option f (List.find P xs)"
  by (induction xs) auto

lemma list_ex_find: "list_ex P xs = (List.find P xs \<noteq> None)"
  by (induction xs) auto

lemma one_target_cases:
  assumes "one_target go co"
  obtains gid where "go = Some gid" "gid \<noteq> []" "co = None"
        | cid where "go = None" "co = Some cid" "cid \<noteq> []"
  using assms unfolding one_target_def
  by (cases go; cases co) auto

lemma and_conditions_vote_of:
  "one_target go co \<Longrightarrow> and_conditions (vote_conditions uid go co) = vote_of uid go co"
  by (erule one_target_cases)
     (auto simp: and_conditions_def vote_conditions_def vote_of_def fun_eq_iff)

lemma fallback_condition_vote_of:
  "one_target (iv_grievanceId vote) (iv_commentId vote) \<Longrightarrow>
   fallback_condition vote = vote_of (iv_userId vote) (iv_grievanceId vote) (iv_commentId vote)"
  by (erule one_target_cases) (auto simp: fallback_condition_def vote_of_def fun_eq_iff)

lemma unique_conflict_vote_of:
  "one_target (iv_grievanceId vote) (iv_commentId vote) \<Longrightarrow>
   unique_conflict (new_vote_row vote uuid now)
     = vote_of (iv_userId vote) (iv_grievanceId vote) (iv_commentId vote)"
  by (erule one_target_cases)
     (auto simp: unique_conflict_def new_vote_row_def vote_of_def fun_eq_iff)

lemma vote_of_set_kind [simp]: "vote_of uid go co (set_kind k now v) = vote_of uid go co v"
  by (simp add: vote_of_def set_kind_def split: option.splits)

lemma vote_of_new_row:
  "vote_of (iv_userId vote) (iv_grievanceId vote) (iv_commentId vote) (new_vote_row vote uuid now)"
  by (simp add: vote_of_def new_vote_row_def split: option.splits)

lemma getUserVote_find:
  "one_target go co \<Longrightarrow> getUserVote d uid go co = List.find (vote_of uid go co) (userVotes d)"
  by (simp add: getUserVote_def and_conditions_vote_of)

lemma removeVote_filter:
  "one_target go co \<Longrightarrow>
   fst (removeVote d uid go co)
     = d\<lparr>userVotes := filter (\<lambda>v. \<not> vote_of uid go co v) (userVotes d)\<rparr>"
  by (simp add: removeVote_def and_conditions_vote_of Let_def)

lemma insertUserVote_cases:
  assumes t: "one_target (iv_grievanceId vote) (iv_commentId vote)"
    and k: "iv_voteType vote = ''up'' \<or> iv_voteType vote = ''down''"
  shows "insertUserVote d vote uuid now =
     (if List.find (vote_of (iv_userId vote) (iv_grievanceId vote) (iv_commentId vote))
           (userVotes d) \<noteq> None
        then Inl unique_violation
      else if \<not> vote_foreign_keys d (new_vote_row vote uuid now) then Inl foreign_key_violation
      else Inr (d\<lparr>userVotes := userVotes d @ [new_vote_row vote uuid now]\<rparr>,
                new_vote_row vote uuid now))"
proof -
  have chk: "vote_type_check (new_vote_row vote uuid now)"
    using k by (simp add: vote_type_check_def new_vote_row_def)
  have tgt: "vote_target_check (new_vote_row vote uuid now)"
    using t by (rule one_target_cases) (auto simp: vote_target_check_def new_vote_row_def)
  show ?thesis
    unfolding insertUserVote_def Let_def
    using chk tgt by (simp add: unique_conflict_vote_of[OF t] list_ex_find)
qed

lemma updateUserVote_map:
  assumes t: "one_target (iv_grievanceId vote) (iv_commentId vote)"
  shows "updateUserVote d vote now =
     (d\<lparr>userVotes :=
          map (\<lambda>v. if vote_of (iv_userId vote) (iv_grievanceId vote) (iv_commentId vote) v
                   then set_kind (iv_voteType vote) now v else v) (userVotes d)\<rparr>,
      map_option (set_kind (iv_voteType vote) now)
        (List.find (vote_of (iv_userId vote) (iv_grievanceId vote) (iv_commentId vote))
           (userVotes d)))"
  unfolding updateUserVote_def Let_def fallback_condition_vote_of[OF t] ..

lemma createOrUpdateVote_cases:
  assumes t: "one_target (iv_grievanceId vote) (iv_commentId vote)"
    and k: "iv_voteType vote = ''up'' \<or> iv_voteType vote = ''down''"
  shows "createOrUpdateVote d vote uuid now =
     (if List.find (vote_of (iv_userId vote) (iv_grievanceId vote) (iv_commentId vote))
           (userVotes d) \<noteq> None
        then Inr (updateUserVote d vote now)
      else if \<not> vote_foreign_keys d (new_vote_row vote uuid now) then Inl foreign_key_violation
      else Inr (d\<lparr>userVotes := userVotes d @ [new_vote_row vote uuid now]\<rparr>,
                Some (new_vote_row vote uuid now)))"
  unfolding createOrUpdateVote_def insertUserVote_cases[OF t k]
  by (simp add: unique_violation_def foreign_key_violation_def)

section \<open>The grievance vote route\<close>

lemma toggle_vote_cases:
  assumes t: "one_target go co" and k: "k = ''up'' \<or> k = ''down''"
  shows "toggle_vote d uid go co k uuid now =
     (if List.find (vote_of uid go co) (userVotes d) = None
         \<and> \<not> vote_foreign_keys d (new_vote_row \<lparr>iv_userId = uid, iv_grievanceId = go,
               iv_commentId = co, iv_voteType = k\<rparr> uuid now)
      then Inl foreign_key_violation
      else Inr (d\<lparr>userVotes := toggled_votes (userVotes d) uid go co k uuid now\<rparr>))"
proof -
  let ?vote = "\<lparr>iv_userId = uid, iv_grievanceId = go, iv_commentId = co, iv_voteType = k\<rparr>"
  have t': "one_target (iv_grievanceId ?vote) (iv_commentId ?vote)" using t by simp
  have k': "iv_voteType ?vote = ''up'' \<or> iv_voteType ?vote = ''down''" using k by simp
  show ?thesis
  proof (cases "List.find (vote_of uid go co) (userVotes d)")
    case None
    then show ?thesis
      unfolding toggle_vote_def Let_def getUserVote_find[OF t]
        createOrUpdateVote_cases[OF t' k']
      by (simp add: toggled_votes_def new_vote_row_def)
  next
    case (Some ev)
    then show ?thesis
      unfolding toggle_vote_def Let_def getUserVote_find[OF t]
        createOrUpdateVote_cases[OF t' k'] updateUserVote_map[OF t'] removeVote_filter[OF t]
      by (simp add: toggled_votes_def set_kind_def)
  qed
qed

lemma find_toggled_votes:
  assumes k: "k \<noteq> []"
  shows "vote_type_or_null (List.find (vote_of uid go co) (toggled_votes votes uid go co k uuid now))
      = resulting_vote votes uid go co k"
proof (cases "List.find (vote_of uid go co) votes")
  case None
  have "vote_of uid go co \<lparr>v_id = uuid, v_userId = uid, v_grievanceId = go,
                    v_commentId = co, v_voteType = k, v_timestamp = now\<rparr>"
    by (simp add: vote_of_def split: option.splits)
  from find_append_new[OF None this] None k show ?thesis
    by (simp add: toggled_votes_def resulting_vote_def)
next
  case (Some ev)
  have inv: "\<And>x. vote_of uid go co (x\<lparr>v_voteType := k, v_timestamp := now\<rparr>) = vote_of uid go co x"
    by (simp add: vote_of_def split: option.splits)
  show ?thesis
    using Some k
    by (simp add: toggled_votes_def resulting_vote_def find_filter_not
          find_map_if[where P = "vote_of uid go co", OF inv])
qed


lemma userVotes_recount_grievance [simp]: "userVotes (recount_grievance d gid) = userVotes d"
  by (simp add: recount_grievance_def Let_def)

lemma userVotes_recount_comment [simp]: "userVotes (recount_comment d cid) = userVotes d"
  by (simp add: recount_comment_def Let_def)

lemma users_recount_grievance [simp]: "users (recount_grievance d gid) = users d"
  by (simp add: recount_grievance_def Let_def)

lemma count_recount_grievance [simp]:
  "count_grievance_votes (recount_grievance d gid) g k = count_grievance_votes d g k"
  by (simp add: count_grievance_votes_def)

lemma getUserVote_recount_grievance [simp]:
  "getUserVote (recount_grievance d gid) uid go co = getUserVote d uid go co"
  by (simp add: getUserVote_def)

lemma getUserVote_recount_comment [simp]:
  "getUserVote (recount_comment d cid) uid go co = getUserVote d uid go co"
  by (simp add: getUserVote_def)

lemma updateVoteCounts_grievance:
  "gid \<noteq> [] \<Longrightarrow> updateVoteCounts d (Some gid) None = recount_grievance d gid"
  by (simp add: updateVoteCounts_def)


lemma find_recount_grievance:
  "List.find (\<lambda>g. g_id g = gid) (grievances (recount_grievance d gid))
     = map_option (\<lambda>g. g\<lparr>g_upvotes := count_grievance_votes d gid ''up'',
                         g_downvotes := count_grievance_votes d gid ''down''\<rparr>)
         (List.find (\<lambda>g. g_id g = gid) (grievances d))"
  unfolding recount_grievance_def Let_def
  by (simp add: find_map_if[where P = "\<lambda>g. g_id g = gid"])

lemma counts_after_recount:
  assumes "getGrievance d gid \<noteq> None"
  shows "upvotes_or_zero (getGrievance (recount_grievance d gid) gid) = count_grievance_votes d gid ''up''"
    and "downvotes_or_zero (getGrievance (recount_grievance d gid) gid) = count_grievance_votes d gid ''down''"
  using assms
  by (auto simp: getGrievance_def find_recount_grievance)

lemma getGrievance_votes_irrelevant:
  "getGrievance (d\<lparr>userVotes := vs\<rparr>) gid = getGrievance d gid"
  by (simp add: getGrievance_def author_username_def)

lemma count_votes_update:
  "count_grievance_votes (d\<lparr>userVotes := vs\<rparr>) g k
     = int (length (filter (\<lambda>v. v_grievanceId v = Some g \<and> v_voteType v = k) vs))"
  by (simp add: count_grievance_votes_def)

lemma getGrievance_id_mem:
  "getGrievance d gid \<noteq> None \<Longrightarrow> gid \<in> set (map g_id (grievances d))"
  by (auto simp: getGrievance_def find_None_iff)

lemma grievances_recount_grievance:
  "grievances (recount_grievance d gid)
     = map (\<lambda>g. if g_id g = gid
                then g\<lparr>g_upvotes := count_grievance_votes d gid ''up'',
                       g_downvotes := count_grievance_votes d gid ''down''\<rparr>
                else g) (grievances d)"
  by (simp add: recount_grievance_def Let_def)

lemma list_all_map_if:
  "(\<And>x. x \<in> set xs \<Longrightarrow> P x \<Longrightarrow> Q (f x)) \<Longrightarrow>
   (\<And>x. x \<in> set xs \<Longrightarrow> \<not> P x \<Longrightarrow> Q x) \<Longrightarrow>
   list_all Q (map (\<lambda>x. if P x then f x else x) xs)"
  by (induction xs) auto

lemma stored_counters_after_recount:
  "list_all (\<lambda>g. g_id g = gid \<longrightarrow>
               g_upvotes g = count_grievance_votes (recount_grievance d gid) gid ''up'' \<and>
               g_downvotes g = count_grievance_votes (recount_grievance d gid) gid ''down'')
     (grievances (recount_grievance d gid))"
  unfolding grievances_recount_grievance count_recount_grievance
  by (rule list_all_map_if) simp_all

lemma grievance_vote_toggled:
  assumes auth: "userId sess = Some uid" "uid \<noteq> []" "uid \<in> set (map u_id (users d))"
      and kind: "k = ''up'' \<or> k = ''down''"
      and target: "gid \<noteq> []" "getGrievance d gid \<noteq> None"
  shows "\<exists>d'. post_grievance_vote d sess gid (Some k) uuid now
              = (d', Response 200
                       (VoteBody (count_grievance_votes d' gid ''up'')
                                 (count_grievance_votes d' gid ''down'')
                                 (resulting_vote (userVotes d) uid (Some gid) None k)))
            \<and> userVotes d' = toggled_votes (userVotes d) uid (Some gid) None k uuid now
            \<and> vote_type_or_null (getUserVote d' uid (Some gid) None)
                = resulting_vote (userVotes d) uid (Some gid) None k
            \<and> getUserVote d uid (Some gid) None
                = List.find (vote_of uid (Some gid) None) (userVotes d)
            \<and> list_all (\<lambda>g. g_id g = gid \<longrightarrow>
                           g_upvotes g = count_grievance_votes d' gid ''up'' \<and>
                           g_downvotes g = count_grievance_votes d' gid ''down'')
                 (grievances d')"
proof -
  have t: "one_target (Some gid) None" using target by (simp add: one_target_def)
  have kne: "k \<noteq> []" using kind by auto
  have vv: "valid_vote_type (Some k)" using kind by (auto simp: valid_vote_type_def)
  have fk: "vote_foreign_keys d (new_vote_row \<lparr>iv_userId = uid, iv_grievanceId = Some gid,
               iv_commentId = None, iv_voteType = k\<rparr> uuid now)"
    using auth(3) getGrievance_id_mem[OF target(2)]
    by (simp add: vote_foreign_keys_def new_vote_row_def)
  define d1 where
    "d1 = d\<lparr>userVotes := toggled_votes (userVotes d) uid (Some gid) None k uuid now\<rparr>"
  have tg: "toggle_vote d uid (Some gid) None k uuid now = Inr d1"
    unfolding toggle_vote_cases[OF t kind] d1_def using fk by simp
  have g1: "getGrievance d1 gid \<noteq> None"
    unfolding d1_def getGrievance_votes_irrelevant by (rule target(2))
  have uv: "vote_type_or_null (getUserVote d1 uid (Some gid) None)
              = resulting_vote (userVotes d) uid (Some gid) None k"
    unfolding getUserVote_find[OF t] d1_def using find_toggled_votes[OF kne] by simp
  have res: "post_grievance_vote d sess gid (Some k) uuid now =
     (recount_grievance d1 gid,
      Response 200 (VoteBody (count_grievance_votes (recount_grievance d1 gid) gid ''up'')
        (count_grievance_votes (recount_grievance d1 gid) gid ''down'')
        (resulting_vote (userVotes d) uid (Some gid) None k)))"
    unfolding post_grievance_vote_def grievance_vote_handler_def
    using auth(1,2) vv target tg uv
    by (simp add: updateVoteCounts_grievance Let_def counts_after_recount[OF g1])
  show ?thesis
  proof (intro exI conjI)
    show "post_grievance_vote d sess gid (Some k) uuid now =
     (recount_grievance d1 gid,
      Response 200 (VoteBody (count_grievance_votes (recount_grievance d1 gid) gid ''up'')
        (count_grievance_votes (recount_grievance d1 gid) gid ''down'')
        (resulting_vote (userVotes d) uid (Some gid) None k)))" by (rule res)
    show "userVotes (recount_grievance d1 gid)
            = toggled_votes (userVotes d) uid (Some gid) None k uuid now"
      by (simp add: d1_def)
    show "vote_type_or_null (getUserVote (recount_grievance d1 gid) uid (Some gid) None)
            = resulting_vote (userVotes d) uid (Some gid) None k"
      using uv by simp
    show "getUserVote d uid (Some gid) None = List.find (vote_of uid (Some gid) None) (userVotes d)"
      by (rule getUserVote_find[OF t])
    show "list_all (\<lambda>g. g_id g = gid \<longrightarrow>
               g_upvotes g = count_grievance_votes (recount_grievance d1 gid) gid ''up'' \<and>
               g_downvotes g = count_grievance_votes (recount_grievance d1 gid) gid ''down'')
            (grievances (recount_grievance d1 gid))"
      by (rule stored_counters_after_recount)
  qed
qed


text \<open>
  C1. An authenticated user \<open>uid\<close> (a row of \<open>users\<close>) posts a vote of kind \<open>k\<close>, up or
  down, on an existing grievance \<open>gid\<close>. The vote rows afterwards are those of the toggle
  protocol: no vote before gives a new row of kind \<open>k\<close>; a vote of kind \<open>k\<close> is removed; a
  vote of the other kind is overwritten in place, and no row is added. The answer is 200
  and reports the up and down counts of the rows as they now are, which are also the
  counters stored on the grievance, and the user's resulting vote.
\<close>

theorem grievance_vote_toggle:
  assumes auth: "userId sess = Some uid" "uid \<noteq> []" "uid \<in> set (map u_id (users d))"
      and kind: "k = ''up'' \<or> k = ''down''"
      and target: "gid \<noteq> []" "getGrievance d gid \<noteq> None"
  shows "\<exists>d'. post_grievance_vote d sess gid (Some k) uuid now
              = (d', Response 200
                       (VoteBody (count_grievance_votes d' gid ''up'')
                                 (count_grievance_votes d' gid ''down'')
                                 (vote_type_or_null (getUserVote d' uid (Some gid) None))))
            \<and> (case getUserVote d uid (Some gid) None of
                  None \<Rightarrow>
                    userVotes d'
                      = userVotes d @ [\<lparr>v_id = uuid, v_userId = uid, v_grievanceId = Some gid,
                                        v_commentId = None, v_voteType = k, v_timestamp = now\<rparr>]
                    \<and> vote_type_or_null (getUserVote d' uid (Some gid) None) = Some k
                | Some ev \<Rightarrow>
                    if v_voteType ev = k
                    then userVotes d'
                           = filter (\<lambda>v. \<not> (v_userId v = uid \<and> v_grievanceId v = Some gid))
                               (userVotes d)
                         \<and> getUserVote d' uid (Some gid) None = None
                    else userVotes d'
                           = map (\<lambda>v. if v_userId v = uid \<and> v_grievanceId v = Some gid
                                      then v\<lparr>v_voteType := k, v_timestamp := now\<rparr> else v)
                               (userVotes d)
                         \<and> length (userVotes d') = length (userVotes d)
                         \<and> getUserVote d' uid (Some gid) None
                             = Some (ev\<lparr>v_voteType := k, v_timestamp := now\<rparr>))
            \<and> list_all (\<lambda>g. g_id g = gid \<longrightarrow>
                           g_upvotes g = count_grievance_votes d' gid ''up'' \<and>
                           g_downvotes g = count_grievance_votes d' gid ''down'')
                 (grievances d')"
proof -
  have t: "one_target (Some gid) None" using target by (simp add: one_target_def)
  have kne: "k \<noteq> []" using kind by auto
  let ?mine = "\<lambda>v. v_userId v = uid \<and> v_grievanceId v = Some gid"
  have vo: "vote_of uid (Some gid) None = ?mine" by (simp add: vote_of_def fun_eq_iff)
  from grievance_vote_toggled[OF assms, of uuid now]
  obtain d' where
    r: "post_grievance_vote d sess gid (Some k) uuid now
              = (d', Response 200
                       (VoteBody (count_grievance_votes d' gid ''up'')
                                 (count_grievance_votes d' gid ''down'')
                                 (resulting_vote (userVotes d) uid (Some gid) None k)))"
    and v: "userVotes d' = toggled_votes (userVotes d) uid (Some gid) None k uuid now"
    and u: "vote_type_or_null (getUserVote d' uid (Some gid) None)
                = resulting_vote (userVotes d) uid (Some gid) None k"
    and c: "list_all (\<lambda>g. g_id g = gid \<longrightarrow>
                           g_upvotes g = count_grievance_votes d' gid ''up'' \<and>
                           g_downvotes g = count_grievance_votes d' gid ''down'')
                 (grievances d')"
    by blast
  have g: "getUserVote d uid (Some gid) None = List.find ?mine (userVotes d)"
    and g': "getUserVote d' uid (Some gid) None = List.find ?mine (userVotes d')"
    by (simp_all add: getUserVote_find[OF t] vo)
  have cases: "case List.find ?mine (userVotes d) of
                  None \<Rightarrow>
                    userVotes d'
                      = userVotes d @ [\<lparr>v_id = uuid, v_userId = uid, v_grievanceId = Some gid,
                                        v_commentId = None, v_voteType = k, v_timestamp = now\<rparr>]
                    \<and> vote_type_or_null (List.find ?mine (userVotes d')) = Some k
                | Some ev \<Rightarrow>
                    if v_voteType ev = k
                    then userVotes d' = filter (\<lambda>v. \<not> ?mine v) (userVotes d)
                         \<and> List.find ?mine (userVotes d') = None
                    else userVotes d'
                           = map (\<lambda>v. if ?mine v
                                      then v\<lparr>v_voteType := k, v_timestamp := now\<rparr> else v)
                               (userVotes d)
                         \<and> length (userVotes d') = length (userVotes d)
                         \<and> List.find ?mine (userVotes d')
                             = Some (ev\<lparr>v_voteType := k, v_timestamp := now\<rparr>)"
  proof (cases "List.find ?mine (userVotes d)")
    case None
    then have "userVotes d' = userVotes d @ [\<lparr>v_id = uuid, v_userId = uid,
        v_grievanceId = Some gid, v_commentId = None, v_voteType = k, v_timestamp = now\<rparr>]"
      unfolding v toggled_votes_def vo by simp
    moreover have "vote_type_or_null (List.find ?mine (userVotes d')) = Some k"
      using u None unfolding g' resulting_vote_def vo by simp
    ultimately show ?thesis using None by simp
  next
    case (Some ev)
    show ?thesis
    proof (cases "v_voteType ev = k")
      case True
      with Some have f: "userVotes d' = filter (\<lambda>v. \<not> ?mine v) (userVotes d)"
        unfolding v toggled_votes_def vo by simp
      have "List.find ?mine (userVotes d') = None"
        unfolding f by (rule find_filter_not)
      with f Some True show ?thesis by simp
    next
      case False
      with Some have m: "userVotes d' = map (\<lambda>v. if ?mine v
                                      then v\<lparr>v_voteType := k, v_timestamp := now\<rparr> else v)
                               (userVotes d)"
        unfolding v toggled_votes_def vo by simp
      have "List.find ?mine (userVotes d') = Some (ev\<lparr>v_voteType := k, v_timestamp := now\<rparr>)"
        unfolding m using Some
        by (simp add: find_map_if[where P = ?mine])
      with m Some False show ?thesis by simp
    qed
  qed
  have r': "post_grievance_vote d sess gid (Some k) uuid now
              = (d', Response 200
                       (VoteBody (count_grievance_votes d' gid ''up'')
                                 (count_grievance_votes d' gid ''down'')
                                 (vote_type_or_null (getUserVote d' uid (Some gid) None))))"
    using r u by simp
  from cases have cases': "case getUserVote d uid (Some gid) None of
                  None \<Rightarrow>
                    userVotes d'
                      = userVotes d @ [\<lparr>v_id = uuid, v_userId = uid, v_grievanceId = Some gid,
                                        v_commentId = None, v_voteType = k, v_timestamp = now\<rparr>]
                    \<and> vote_type_or_null (getUserVote d' uid (Some gid) None) = Some k
                | Some ev \<Rightarrow>
                    if v_voteType ev = k
                    then userVotes d'
                           = filter (\<lambda>v. \<not> (v_userId v = uid \<and> v_grievanceId v = Some gid))
                               (userVotes d)
                         \<and> getUserVote d' uid (Some gid) None = None
                    else userVotes d'
                           = map (\<lambda>v. if v_userId v = uid \<and> v_grievanceId v = Some gid
                                      then v\<lparr>v_voteType := k, v_timestamp := now\<rparr> else v)
                               (userVotes d)
                         \<and> length (userVotes d') = length (userVotes d)
                         \<and> getUserVote d' uid (Some gid) None
                             = Some (ev\<lparr>v_voteType := k, v_timestamp := now\<rparr>)"
    unfolding g g' .
  from r' cases' c show ?thesis by blast
qed

theorem grievance_vote_toggle_witness:
  "(snd (post_grievance_vote store0 alice_session ''g1'' (Some ''up'') ''v1'' 5000)
      = Response 200 (VoteBody 1 0 (Some ''up''))
    \<and> userVotes (fst (post_grievance_vote store0 alice_session ''g1'' (Some ''up'') ''v1'' 5000))
      = [alice_up])
   \<and> (snd (post_grievance_vote store1 alice_session ''g1'' (Some ''up'') ''v2'' 6000)
      = Response 200 (VoteBody 0 0 None)
    \<and> userVotes (fst (post_grievance_vote store1 alice_session ''g1'' (Some ''up'') ''v2'' 6000))
      = [])
   \<and> (snd (post_grievance_vote store1 alice_session ''g1'' (Some ''down'') ''v2'' 6000)
      = Response 200 (VoteBody 0 1 (Some ''down''))
    \<and> userVotes (fst (post_grievance_vote store1 alice_session ''g1'' (Some ''down'') ''v2'' 6000))
      = [alice_down])"
proof -
  have u: "''u1'' \<in> set (map u_id (users store0))" "''u1'' \<in> set (map u_id (users store1))"
    by (simp_all add: store0_def store1_def alice_def)
  have g: "getGrievance store0 ''g1'' \<noteq> None" "getGrievance store1 ''g1'' \<noteq> None"
    by (simp_all add: getGrievance_def store0_def store1_def pothole_def)
  have s: "userId alice_session = Some ''u1''" by (simp add: alice_session_def)
  have v0: "userVotes store0 = []" and v1: "userVotes store1 = [alice_up]"
    by (simp_all add: store0_def store1_def)
  note ev = getUserVote_def vote_conditions_def and_conditions_def count_grievance_votes_def
    alice_up_def alice_down_def v0 v1
  from grievance_vote_toggle[OF s _ u(1) _ _ g(1), of "''up''" "''v1''" 5000]
  have a: "snd (post_grievance_vote store0 alice_session ''g1'' (Some ''up'') ''v1'' 5000)
      = Response 200 (VoteBody 1 0 (Some ''up''))
    \<and> userVotes (fst (post_grievance_vote store0 alice_session ''g1'' (Some ''up'') ''v1'' 5000))
      = [alice_up]"
    by (auto simp: ev)
  from grievance_vote_toggle[OF s _ u(2) _ _ g(2), of "''up''" "''v2''" 6000]
  have b: "snd (post_grievance_vote store1 alice_session ''g1'' (Some ''up'') ''v2'' 6000)
      = Response 200 (VoteBody 0 0 None)
    \<and> userVotes (fst (post_grievance_vote store1 alice_session ''g1'' (Some ''up'') ''v2'' 6000))
      = []"
    by (auto simp: ev)
  from grievance_vote_toggle[OF s _ u(2) _ _ g(2), of "''down''" "''v2''" 6000]
  have c: "snd (post_grievance_vote store1 alice_session ''g1'' (Some ''down'') ''v2'' 6000)
      = Response 200 (VoteBody 0 1 (Some ''down''))
    \<and> userVotes (fst (post_grievance_vote store1 alice_session ''g1'' (Some ''down'') ''v2'' 6000))
      = [alice_down]"
    by (auto simp: ev)
  from a b c show ?thesis by blast
qed

section \<open>Voting on a comment that does not exist\<close>

text \<open>
  Where no comment has the id and (as the foreign key ensures) no vote row refers to it,
  the request finds no existing vote, the insert is rejected and the handler answers 500;
  the store is unchanged.
\<close>

lemma absent_comment_no_vote:
  assumes auth: "userId sess = Some uid" "uid \<noteq> []"
      and kind: "k = ''up'' \<or> k = ''down''"
      and cid: "cid \<noteq> []" "cid \<notin> set (map c_id (comments d))"
      and fk: "Some cid \<notin> set (map v_commentId (userVotes d))"
  shows "post_comment_vote d sess cid (Some k) uuid now
           = (d, Response 500 (ErrorBody ''Failed to process vote''))"
proof -
  have t: "one_target None (Some cid)" using cid by (simp add: one_target_def)
  have vv: "valid_vote_type (Some k)" using kind by (auto simp: valid_vote_type_def)
  have none: "List.find (vote_of uid None (Some cid)) (userVotes d) = None"
    using fk by (force simp: find_None_iff vote_of_def image_iff)
  have nfk: "\<not> vote_foreign_keys d (new_vote_row \<lparr>iv_userId = uid, iv_grievanceId = None,
               iv_commentId = Some cid, iv_voteType = k\<rparr> uuid now)"
    using cid(2) by (simp add: vote_foreign_keys_def new_vote_row_def)
  have "toggle_vote d uid None (Some cid) k uuid now = Inl foreign_key_violation"
    unfolding toggle_vote_cases[OF t kind] using none nfk by simp
  then show ?thesis
    using auth vv by (simp add: post_comment_vote_def comment_vote_handler_def)
qed

text \<open>
  C9. In the example store there is neither a comment \<open>c9\<close> nor a grievance \<open>g9\<close>. A vote
  on grievance \<open>g9\<close> is answered with 404; a vote on comment \<open>c9\<close> reaches the insert, which
  the foreign key on \<open>comment_id\<close> rejects, and the handler answers 500. Neither request
  changes the store.
\<close>

theorem comment_vote_absent_comment:
  "post_comment_vote store0 alice_session ''c9'' (Some ''up'') ''v1'' 5000
     = (store0, Response 500 (ErrorBody ''Failed to process vote''))
   \<and> post_grievance_vote store0 alice_session ''g9'' (Some ''up'') ''v1'' 5000
     = (store0, Response 404 (ErrorBody ''Grievance not found''))"
  by code_simp

section \<open>Conflict recovery in createOrUpdateVote\<close>

lemma upsert_target_vote_of:
  assumes "vote_target_check (new_vote_row vote uuid now)" "iv_grievanceId vote \<noteq> Some []"
  shows "fallback_condition vote = vote_of (iv_userId vote) (iv_grievanceId vote) (iv_commentId vote)"
    and "unique_conflict (new_vote_row vote uuid now)
           = vote_of (iv_userId vote) (iv_grievanceId vote) (iv_commentId vote)"
  using assms
  by (cases "iv_grievanceId vote"; cases "iv_commentId vote";
      auto simp: vote_target_check_def new_vote_row_def fallback_condition_def unique_conflict_def
        vote_of_def fun_eq_iff)+

lemma keys_map_set_kind:
  "map key (filter Q (map (\<lambda>v. if P v then set_kind k now v else v) vs)) = map key (filter Q vs)"
  if "\<And>v. key (set_kind k now v) = key v" "\<And>v. Q (set_kind k now v) = Q v"
  using that by (induction vs) auto

lemma unique_votes_set_kind:
  "unique_votes vs \<Longrightarrow> unique_votes (map (\<lambda>v. if P v then set_kind k now v else v) vs)"
  unfolding unique_votes_def
  by (simp add: keys_map_set_kind set_kind_def)

text \<open>
  C8. When the insert of a vote fails with a uniqueness violation, \<open>createOrUpdateVote\<close>
  does not fail: there is a row of that user on that target, the kind (and timestamp) of
  that row is overwritten, and the overwritten row is returned. The number of rows is
  unchanged, and rows that satisfied the UNIQUE constraints still do. (The grievance id
  of a vote is never the empty string: it is a route parameter.)
\<close>

theorem conflict_falls_back_to_update:
  assumes conflict: "insertUserVote d vote uuid now = Inl unique_violation"
      and key: "iv_grievanceId vote \<noteq> Some []"
  shows "\<exists>ev d'.
           List.find (vote_of (iv_userId vote) (iv_grievanceId vote) (iv_commentId vote)) (userVotes d)
             = Some ev
         \<and> createOrUpdateVote d vote uuid now
             = Inr (d', Some (ev\<lparr>v_voteType := iv_voteType vote, v_timestamp := now\<rparr>))
         \<and> d' = d\<lparr>userVotes :=
                    map (\<lambda>v. if vote_of (iv_userId vote) (iv_grievanceId vote) (iv_commentId vote) v
                             then v\<lparr>v_voteType := iv_voteType vote, v_timestamp := now\<rparr> else v)
                        (userVotes d)\<rparr>
         \<and> length (userVotes d') = length (userVotes d)
         \<and> (unique_votes (userVotes d) \<longrightarrow> unique_votes (userVotes d'))"
proof -
  let ?row = "new_vote_row vote uuid now"
  let ?T = "vote_of (iv_userId vote) (iv_grievanceId vote) (iv_commentId vote)"
  from conflict have chk: "vote_target_check ?row" and ex: "list_ex (unique_conflict ?row) (userVotes d)"
    by (auto simp: insertUserVote_def Let_def check_violation_def unique_violation_def
          foreign_key_violation_def split: if_splits)
  note eqs = upsert_target_vote_of[OF chk key]
  from ex obtain ev where ev: "List.find ?T (userVotes d) = Some ev"
    unfolding eqs(2) list_ex_find by auto
  have upd: "createOrUpdateVote d vote uuid now = Inr (updateUserVote d vote now)"
    unfolding createOrUpdateVote_def conflict by (simp add: unique_violation_def)
  have u: "updateUserVote d vote now =
     (d\<lparr>userVotes := map (\<lambda>v. if ?T v then set_kind (iv_voteType vote) now v else v) (userVotes d)\<rparr>,
      Some (set_kind (iv_voteType vote) now ev))"
    unfolding updateUserVote_def Let_def eqs(1) using ev by simp
  show ?thesis
    using ev upd u unique_votes_set_kind[of "userVotes d" ?T "iv_voteType vote" now]
    by (simp add: set_kind_def)
qed

theorem conflict_falls_back_to_update_witness:
  "insertUserVote store1 \<lparr>iv_userId = ''u1'', iv_grievanceId = Some ''g1'', iv_commentId = None,
       iv_voteType = ''down''\<rparr> ''v2'' 6000 = Inl unique_violation
   \<and> createOrUpdateVote store1 \<lparr>iv_userId = ''u1'', iv_grievanceId = Some ''g1'', iv_commentId = None,
       iv_voteType = ''down''\<rparr> ''v2'' 6000
       = Inr (store1\<lparr>userVotes := [alice_down]\<rparr>, Some alice_down)"
proof -
  let ?vote = "\<lparr>iv_userId = ''u1'', iv_grievanceId = Some ''g1'', iv_commentId = None,
       iv_voteType = ''down''\<rparr>"
  have c: "insertUserVote store1 ?vote ''v2'' 6000 = Inl unique_violation"
    by (simp add: insertUserVote_def Let_def new_vote_row_def vote_type_check_def
          vote_target_check_def unique_conflict_def store1_def alice_up_def)
  from conflict_falls_back_to_update[OF c] c show ?thesis
    by (auto simp: store1_def alice_up_def alice_down_def vote_of_def)
qed

section \<open>What a toggle leaves alone\<close>









section \<open>Recounting\<close>

lemma comments_recount_comment:
  "comments (recount_comment d cid)
     = map (\<lambda>c. if c_id c = cid then c\<lparr>c_upvotes := count_comment_votes d cid ''up''\<rparr> else c)
           (comments d)"
  by (simp add: recount_comment_def Let_def)


lemma count_comment_recount_grievance [simp]:
  "count_comment_votes (recount_grievance d gid) c k = count_comment_votes d c k"
  by (simp add: count_comment_votes_def)

lemma count_grievance_recount_comment [simp]:
  "count_grievance_votes (recount_comment d cid) g k = count_grievance_votes d g k"
  by (simp add: count_grievance_votes_def)

lemma comments_recount_grievance [simp]: "comments (recount_grievance d gid) = comments d"
  by (simp add: recount_grievance_def Let_def)

lemma grievances_recount_comment [simp]: "grievances (recount_comment d cid) = grievances d"
  by (simp add: recount_comment_def Let_def)


section \<open>The store after a vote request\<close>



section \<open>Counters follow the vote rows\<close>





lemma votes_checked_recount [simp]:
  "votes_checked (recount_grievance d gid) = votes_checked d"
  "votes_checked (recount_comment d cid) = votes_checked d"
  by (simp_all add: votes_checked_def)




section \<open>What a vote changes\<close>

lemma toggle_vote_frame:
  assumes "toggle_vote d uid go co k uuid now = Inr d1"
  shows "grievances d1 = grievances d \<and> comments d1 = comments d \<and> users d1 = users d
         \<and> assignments d1 = assignments d"
  using assms
  by (auto simp: toggle_vote_def Let_def removeVote_def createOrUpdateVote_def insertUserVote_def
        updateUserVote_def split: if_splits sum.splits db_error.splits)

lemma filter_map_if_other:
  "(\<And>x. P (f x) = P x) \<Longrightarrow>
   filter (\<lambda>x. \<not> P x) (map (\<lambda>x. if P x then f x else x) xs) = filter (\<lambda>x. \<not> P x) xs"
  by (induction xs) auto

lemma map_map_if_erased:
  "(\<And>x. e (f x) = e x) \<Longrightarrow> map e (map (\<lambda>x. if P x then f x else x) xs) = map e xs"
  by (induction xs) auto

lemma recount_grievance_frame:
  "map without_counters (grievances (recount_grievance d gid)) = map without_counters (grievances d)"
  "filter (\<lambda>g. g_id g \<noteq> gid) (grievances (recount_grievance d gid))
     = filter (\<lambda>g. g_id g \<noteq> gid) (grievances d)"
  unfolding grievances_recount_grievance
  by (simp_all add: map_map_if_erased without_counters_def
        filter_map_if_other[where P = "\<lambda>g. g_id g = gid"])

lemma recount_comment_frame:
  "map without_upvotes (comments (recount_comment d cid)) = map without_upvotes (comments d)"
  "filter (\<lambda>c. c_id c \<noteq> cid) (comments (recount_comment d cid))
     = filter (\<lambda>c. c_id c \<noteq> cid) (comments d)"
  unfolding comments_recount_comment
  by (simp_all add: map_map_if_erased without_upvotes_def
        filter_map_if_other[where P = "\<lambda>c. c_id c = cid"])

lemma updateVoteCounts_grievance_frame:
  "map without_counters (grievances (updateVoteCounts d (Some gid) None))
     = map without_counters (grievances d)"
  "filter (\<lambda>g. g_id g \<noteq> gid) (grievances (updateVoteCounts d (Some gid) None))
     = filter (\<lambda>g. g_id g \<noteq> gid) (grievances d)"
  "comments (updateVoteCounts d (Some gid) None) = comments d"
  by (simp_all add: updateVoteCounts_def recount_grievance_frame)

lemma updateVoteCounts_comment_frame:
  "map without_upvotes (comments (updateVoteCounts d None (Some cid)))
     = map without_upvotes (comments d)"
  "filter (\<lambda>c. c_id c \<noteq> cid) (comments (updateVoteCounts d None (Some cid)))
     = filter (\<lambda>c. c_id c \<noteq> cid) (comments d)"
  "grievances (updateVoteCounts d None (Some cid)) = grievances d"
  by (simp_all add: updateVoteCounts_def recount_comment_frame)

lemma post_grievance_vote_path:
  "fst (post_grievance_vote d sess gid vt uuid now) = d
   \<or> (\<exists>d1. grievances d1 = grievances d \<and> comments d1 = comments d
          \<and> fst (post_grievance_vote d sess gid vt uuid now) = updateVoteCounts d1 (Some gid) None)"
  using toggle_vote_frame[of d _ "Some gid" None _ uuid now]
  by (auto simp: post_grievance_vote_def grievance_vote_handler_def Let_def
        split: option.splits sum.splits)

lemma post_comment_vote_path:
  "fst (post_comment_vote d sess cid vt uuid now) = d
   \<or> (\<exists>d1. grievances d1 = grievances d \<and> comments d1 = comments d
          \<and> fst (post_comment_vote d sess cid vt uuid now) = updateVoteCounts d1 None (Some cid))"
  using toggle_vote_frame[of d _ None "Some cid" _ uuid now]
  by (auto simp: post_comment_vote_def comment_vote_handler_def Let_def
        split: option.splits sum.splits)

lemma updateGrievance_rows:
  assumes "updateGrievance d gid updates now = Inr (d', r)"
  shows "grievances d' = map (\<lambda>g. if g_id g = gid then set_columns updates now g else g) (grievances d)"
    and "\<And>g'. r = Some g' \<Longrightarrow> g_updatedAt g' = now"
proof -
  have id: "filter (\<lambda>g. g_id g = gid) (grievances d) = [] \<Longrightarrow>
        map (\<lambda>g. if g_id g = gid then set_columns updates now g else g) (grievances d) = grievances d"
    by (induction "grievances d") (auto simp: filter_empty_conv intro: map_idI)
  from assms have run: "run_update d gid updates now = Inr (d', r)"
    by (cases "run_update d gid updates now")
       (auto simp: updateGrievance_def split: if_splits option.splits)
  show "grievances d' = map (\<lambda>g. if g_id g = gid then set_columns updates now g else g) (grievances d)"
    using run id
    by (auto simp: run_update_def Let_def split: if_splits)
  show "\<And>g'. r = Some g' \<Longrightarrow> g_updatedAt g' = now"
    using run
    by (auto simp: run_update_def Let_def set_columns_def split: if_splits)
qed

text \<open>
  C10. A vote request on grievance \<open>gid\<close> leaves every grievance as it was in every column
  but \<open>upvotes\<close> and \<open>downvotes\<close> (so \<open>updatedAt\<close> is not touched), leaves the grievances
  with another id and all comments entirely as they were; a vote request on comment \<open>cid\<close>
  leaves every comment as it was in every column but \<open>upvotes\<close>, and the comments with
  another id and all grievances entirely as they were. An \<open>updateGrievance\<close> that the
  database accepts writes the clock into \<open>updatedAt\<close> of every row it matches.
\<close>

theorem vote_frame:
  "map without_counters (grievances (fst (post_grievance_vote d sess gid vt uuid now)))
     = map without_counters (grievances d)
   \<and> filter (\<lambda>g. g_id g \<noteq> gid) (grievances (fst (post_grievance_vote d sess gid vt uuid now)))
     = filter (\<lambda>g. g_id g \<noteq> gid) (grievances d)
   \<and> comments (fst (post_grievance_vote d sess gid vt uuid now)) = comments d
   \<and> map without_upvotes (comments (fst (post_comment_vote d sess cid vt uuid now)))
     = map without_upvotes (comments d)
   \<and> filter (\<lambda>c. c_id c \<noteq> cid) (comments (fst (post_comment_vote d sess cid vt uuid now)))
     = filter (\<lambda>c. c_id c \<noteq> cid) (comments d)
   \<and> grievances (fst (post_comment_vote d sess cid vt uuid now)) = grievances d
   \<and> (\<forall>d' r. updateGrievance d gid updates now = Inr (d', r) \<longrightarrow>
         grievances d'
           = map (\<lambda>g. if g_id g = gid then set_columns updates now g else g) (grievances d)
         \<and> (\<forall>g. g_updatedAt (set_columns updates now g) = now)
         \<and> (\<forall>g'. r = Some g' \<longrightarrow> g_updatedAt g' = now))"
proof -
  have G: "map without_counters (grievances (fst (post_grievance_vote d sess gid vt uuid now)))
     = map without_counters (grievances d)
   \<and> filter (\<lambda>g. g_id g \<noteq> gid) (grievances (fst (post_grievance_vote d sess gid vt uuid now)))
     = filter (\<lambda>g. g_id g \<noteq> gid) (grievances d)
   \<and> comments (fst (post_grievance_vote d sess gid vt uuid now)) = comments d"
    using post_grievance_vote_path[of d sess gid vt uuid now]
    by (auto simp: updateVoteCounts_grievance_frame)
  have C: "map without_upvotes (comments (fst (post_comment_vote d sess cid vt uuid now)))
     = map without_upvotes (comments d)
   \<and> filter (\<lambda>c. c_id c \<noteq> cid) (comments (fst (post_comment_vote d sess cid vt uuid now)))
     = filter (\<lambda>c. c_id c \<noteq> cid) (comments d)
   \<and> grievances (fst (post_comment_vote d sess cid vt uuid now)) = grievances d"
    using post_comment_vote_path[of d sess cid vt uuid now]
    by (auto simp: updateVoteCounts_comment_frame)
  have U: "\<forall>d' r. updateGrievance d gid updates now = Inr (d', r) \<longrightarrow>
         grievances d'
           = map (\<lambda>g. if g_id g = gid then set_columns updates now g else g) (grievances d)
         \<and> (\<forall>g. g_updatedAt (set_columns updates now g) = now)
         \<and> (\<forall>g'. r = Some g' \<longrightarrow> g_updatedAt g' = now)"
    using updateGrievance_rows[of d gid updates now]
    by (auto simp: set_columns_def)
  from G C U show ?thesis by blast
qed

theorem vote_frame_witness:
  "updateGrievance store0 ''g1'' (no_updates\<lparr>up_title := Some ''Deep pothole''\<rparr>) 7000
     = Inr (store0\<lparr>grievances := [pothole\<lparr>g_title := ''Deep pothole'', g_updatedAt := 7000\<rparr>]\<rparr>,
            Some (pothole\<lparr>g_title := ''Deep pothole'', g_updatedAt := 7000\<rparr>))
   \<and> grievances (fst (post_grievance_vote store0 alice_session ''g1'' (Some ''up'') ''v1'' 5000))
     = [pothole\<lparr>g_upvotes := 1\<rparr>]
   \<and> map g_updatedAt
       (grievances (fst (post_grievance_vote store0 alice_session ''g1'' (Some ''up'') ''v1'' 5000)))
     = [1000]
   \<and> comments (fst (post_comment_vote store0 alice_session ''c1'' (Some ''up'') ''v1'' 5000))
     = [remark\<lparr>c_upvotes := 1\<rparr>]"
proof -
  have u: "updateGrievance store0 ''g1'' (no_updates\<lparr>up_title := Some ''Deep pothole''\<rparr>) 7000
     = Inr (store0\<lparr>grievances := [pothole\<lparr>g_title := ''Deep pothole'', g_updatedAt := 7000\<rparr>]\<rparr>,
            Some (pothole\<lparr>g_title := ''Deep pothole'', g_updatedAt := 7000\<rparr>))"
    by code_simp
  have g: "grievances (fst (post_grievance_vote store0 alice_session ''g1'' (Some ''up'') ''v1'' 5000))
     = [pothole\<lparr>g_upvotes := 1\<rparr>]" by code_simp
  have c: "comments (fst (post_comment_vote store0 alice_session ''c1'' (Some ''up'') ''v1'' 5000))
     = [remark\<lparr>c_upvotes := 1\<rparr>]" by code_simp
  from vote_frame[where d = store0 and sess = alice_session and gid = "''g1''"
        and vt = "Some ''up''" and uuid = "''v1''" and now = 7000 and cid = "''c1''"
        and updates = "no_updates\<lparr>up_title := Some ''Deep pothole''\<rparr>"]
      vote_frame[where d = store0 and sess = alice_session and gid = "''g1''"
        and vt = "Some ''up''" and uuid = "''v1''" and now = 5000 and cid = "''c1''"
        and updates = "no_updates\<lparr>up_title := Some ''Deep pothole''\<rparr>"] u g c
  show ?thesis by (simp add: pothole_def)
qed

section \<open>ILIKE on plain text is case-insensitive containment\<close>

lemma like_match_percent:
  "like_match (CHR ''%'' # q) s \<longleftrightarrow> (\<exists>a b. s = a @ b \<and> like_match q b)"
proof (induction s)
  case Nil
  then show ?case by simp
next
  case (Cons c cs)
  show ?case
  proof
    assume "like_match (CHR ''%'' # q) (c # cs)"
    then have "like_match q (c # cs) \<or> like_match (CHR ''%'' # q) cs" by simp
    then show "\<exists>a b. c # cs = a @ b \<and> like_match q b"
    proof
      assume "like_match q (c # cs)"
      then have "c # cs = [] @ (c # cs) \<and> like_match q (c # cs)" by simp
      then show ?thesis by blast
    next
      assume "like_match (CHR ''%'' # q) cs"
      with Cons.IH obtain a b where "cs = a @ b" "like_match q b" by auto
      then have "c # cs = (c # a) @ b \<and> like_match q b" by simp
      then show ?thesis by blast
    qed
  next
    assume "\<exists>a b. c # cs = a @ b \<and> like_match q b"
    then obtain a b where ab: "c # cs = a @ b" "like_match q b" by auto
    show "like_match (CHR ''%'' # q) (c # cs)"
    proof (cases a)
      case Nil
      with ab have "b = c # cs" by simp
      with ab(2) have "like_match q (c # cs)" by simp
      then show ?thesis by simp
    next
      case (Cons a1 as)
      with ab have "cs = as @ b" by simp
      with ab(2) Cons.IH have "like_match (CHR ''%'' # q) cs" by auto
      then show ?thesis by simp
    qed
  qed
qed

lemma like_match_plain_prefix:
  "plain_text p \<Longrightarrow> like_match (p @ q) s \<longleftrightarrow> (\<exists>s'. s = p @ s' \<and> like_match q s')"
proof (induction p arbitrary: s)
  case Nil
  then show ?case by simp
next
  case (Cons c p)
  then have c: "c \<noteq> CHR ''%''" "c \<noteq> CHR ''_''" "c \<noteq> CHR 0x5C" and p: "plain_text p"
    by (auto simp: plain_text_def wildcard_def)
  show ?case
  proof (cases s)
    case Nil
    with c show ?thesis by simp
  next
    case (Cons x xs)
    with c Cons.IH[OF p, of xs] show ?thesis by auto
  qed
qed

lemma like_match_contains:
  assumes "plain_text t"
  shows "like_match (''%'' @ t @ ''%'') x \<longleftrightarrow> sublist t x"
proof -
  have "like_match (''%'' @ t @ ''%'') x
          \<longleftrightarrow> (\<exists>a b. x = a @ b \<and> like_match (t @ ''%'') b)"
    using like_match_percent[of "t @ ''%''" x] by simp
  also have "\<dots> \<longleftrightarrow> (\<exists>a b s'. x = a @ b \<and> b = t @ s' \<and> like_match ''%'' s')"
    using like_match_plain_prefix[OF assms, of "''%''"] by auto
  also have "\<dots> \<longleftrightarrow> (\<exists>a s'. x = a @ t @ s')"
    using like_match_percent[of "[]"] by auto
  finally show ?thesis by (simp add: sublist_def)
qed

lemma wildcard_lower_char: "wildcard (lower_char c) = wildcard c"
  by (auto simp: wildcard_def lower_char_def split: if_splits)

lemma plain_text_lower: "plain_text (lower t) = plain_text t"
  by (simp add: plain_text_def lower_def list_all_iff wildcard_lower_char)

lemma lower_pattern: "lower (''%'' @ t @ ''%'') = ''%'' @ lower t @ ''%''"
  by (simp add: lower_def lower_char_def)

lemma ilike_contains:
  "plain_text t \<Longrightarrow> ilike x (''%'' @ t @ ''%'') = contains_ci t x"
  unfolding ilike_def contains_ci_def lower_pattern
  by (rule like_match_contains) (simp add: plain_text_lower)

section \<open>The grievance query\<close>

lemma active_filter_iff: "active_filter v \<longleftrightarrow> \<not> (v = None \<or> v = Some [] \<or> v = Some ''all'')"
  by (cases v) (auto simp: active_filter_def)

lemma truthy_iff: "truthy v \<longleftrightarrow> \<not> (v = None \<or> v = Some [])"
  by (cases v) auto

lemma and_conditions_append [simp]:
  "and_conditions (cs @ ds) g = (and_conditions cs g \<and> and_conditions ds g)"
  by (simp add: and_conditions_def)

lemma field_condition:
  "and_conditions (if active_filter v then [\<lambda>g. Some (proj g) = v] else []) g
     = field_filter v (proj g)"
  by (cases v) (auto simp: and_conditions_def active_filter_def field_filter_def)

lemma author_condition:
  "and_conditions (if truthy v then [\<lambda>g. Some (g_authorId g) = v] else []) g
     = (v = None \<or> v = Some [] \<or> v = Some (g_authorId g))"
  by (cases v) (auto simp: and_conditions_def)

lemma search_conditions:
  "and_conditions (case v of Some search \<Rightarrow> if search \<noteq> [] then [search_condition search] else []
                   | None \<Rightarrow> []) g
     = (case v of
          None \<Rightarrow> True
        | Some t \<Rightarrow> t = [] \<or> ilike (g_title g) (''%'' @ t @ ''%'')
                    \<or> ilike (g_description g) (''%'' @ t @ ''%'')
                    \<or> ilike_nullable (g_location g) (''%'' @ t @ ''%''))"
  by (cases v) (simp_all add: and_conditions_def search_condition_def Let_def)

lemma and_conditions_matches: "and_conditions (grievance_conditions f) g = matches f g"
  unfolding grievance_conditions_def and_conditions_append matches_def
    field_condition author_condition search_conditions ..

lemma where_conditions_matches:
  "where_conditions (grievance_conditions f) rows = filter (matches f) rows"
proof -
  have "and_conditions (grievance_conditions f) = matches f"
    by (simp add: fun_eq_iff and_conditions_matches)
  moreover have "grievance_conditions f = [] \<Longrightarrow> filter (matches f) rows = rows"
    using and_conditions_matches[of f, symmetric] by (simp add: and_conditions_def)
  ultimately show ?thesis by (auto simp: where_conditions_def)
qed

lemma pagination_error_none:
  "pagination_error l k = None \<longleftrightarrow> accepted_count l \<and> accepted_count k"
proof -
  have r: "\<And>v::int. read_integer 64 v = None \<longleftrightarrow> fits 64 v"
    by (auto simp: read_integer_def fits_def)
  have a: "\<And>n. (Option.bind (applied n) (read_integer 64) = None
              \<and> negative_count code (applied n) = None) \<longleftrightarrow> accepted_count n" for code
    by (auto simp: applied_def negative_count_def accepted_count_def r fits_def
          split: option.splits)
  have "pagination_error l k = None \<longleftrightarrow>
          (Option.bind (applied l) (read_integer 64) = None
            \<and> negative_count ''2201W'' (applied l) = None)
          \<and> (Option.bind (applied k) (read_integer 64) = None
            \<and> negative_count ''2201X'' (applied k) = None)"
    unfolding pagination_error_def
    by (cases "Option.bind (applied l) (read_integer 64)";
        cases "Option.bind (applied k) (read_integer 64)";
        cases "negative_count ''2201X'' (applied k)";
        cases "negative_count ''2201W'' (applied l)") simp_all
  then show ?thesis unfolding a .
qed

lemma paginate_none [simp]: "paginate None None rows = rows"
  by (simp add: paginate_def applied_def)

lemma skip_rows_drop: "skip_rows k rows = drop (nat k) rows"
proof (induction rows arbitrary: k)
  case Nil
  show ?case by simp
next
  case (Cons r rows)
  show ?case
  proof (cases "k \<le> 0")
    case True
    then show ?thesis by simp
  next
    case False
    then have "nat k = Suc (nat (k - 1))" by simp
    with False Cons show ?thesis by simp
  qed
qed

lemma first_rows_take: "first_rows l rows = take (nat l) rows"
proof (induction rows arbitrary: l)
  case Nil
  show ?case by simp
next
  case (Cons r rows)
  show ?case
  proof (cases "l \<le> 0")
    case True
    then show ?thesis by simp
  next
    case False
    then have "nat l = Suc (nat (l - 1))" by simp
    with False Cons show ?thesis by simp
  qed
qed

lemma paginate_take_drop:
  "paginate limitArg offsetArg rows =
     (let skipped = (case offsetArg of None \<Rightarrow> rows | Some k \<Rightarrow> drop (nat k) rows)
      in case limitArg of
           None \<Rightarrow> skipped
         | Some l \<Rightarrow> if l = 0 then skipped else take (nat l) skipped)"
  by (cases limitArg; cases offsetArg)
     (auto simp: paginate_def applied_def skip_rows_drop first_rows_take)

lemma order_by_returns:
  "(\<exists>res. order_by scan s rows = Inr res)
     \<longleftrightarrow> (sorts_by_net_votes s \<longrightarrow> list_all (\<lambda>g. fits 32 (net_votes g)) rows)"
  by (auto simp: order_by_def sorts_by_net_votes_def net_votes_def)

lemma order_by_mset:
  assumes "\<forall>rows. mset (scan rows) = mset rows" and "order_by scan s rows = Inr res"
  shows "mset res = mset rows"
  using assms by (auto simp: order_by_def split: if_splits)

lemma condition_error_none:
  "condition_error f = None \<longleftrightarrow>
     readable (f_category f) \<and> readable (f_municipality f) \<and> readable (f_authorId f)
     \<and> readable (f_search f) \<and> \<not> status_filter_rejected f"
proof -
  have a: "(if active_filter v then Option.bind v read_text else None) = None \<longleftrightarrow> readable v"
    for v
    by (cases v) (auto simp: active_filter_def read_text_def readable_def)
  have t: "(if truthy v then Option.bind v read_text else None) = None \<longleftrightarrow> readable v" for v
    by (cases v) (auto simp: read_text_def readable_def)
  have s: "(if active_filter (f_status f) then Option.bind (f_status f) read_status else None)
             = None \<longleftrightarrow> \<not> status_filter_rejected f"
    by (cases "f_status f") (auto simp: status_filter_rejected_def read_status_none)
  show ?thesis
    unfolding condition_error_def first_error_none using a t s by auto
qed

lemma getGrievances_Inr:
  "getGrievances scan d f = Inr r \<longleftrightarrow>
     condition_error f = None
     \<and> pagination_error (f_limit f) (f_offset f) = None
     \<and> (\<exists>res. order_by scan (f_sortBy f) (filter (matches f) (grievances d)) = Inr res
            \<and> r = \<lparr>r_grievances =
                      map (\<lambda>g. (g, author_username d g)) (paginate (f_limit f) (f_offset f) res),
                    r_total = length (filter (matches f) (grievances d))\<rparr>)"
proof (cases "order_by scan (f_sortBy f) (filter (matches f) (grievances d))")
  case (Inl e)
  then show ?thesis
    by (cases "pagination_error (f_limit f) (f_offset f)"; cases "condition_error f")
       (simp_all add: getGrievances_def run_query_def Let_def where_conditions_matches)
next
  case (Inr res)
  then show ?thesis
    by (cases "pagination_error (f_limit f) (f_offset f)"; cases "condition_error f")
       (auto simp: getGrievances_def run_query_def Let_def where_conditions_matches)
qed

lemma getGrievances_returns:
  "(\<exists>r. getGrievances scan d f = Inr r) \<longleftrightarrow> query_accepted d f"
  unfolding getGrievances_Inr query_accepted_def filters_accepted_def condition_error_none
  using order_by_returns[of scan "f_sortBy f" "filter (matches f) (grievances d)"]
  by (auto simp: pagination_error_none)

lemma matches_pagination [simp]:
  "matches (f\<lparr>f_limit := l, f_offset := k\<rparr>) = matches f"
  by (simp add: matches_def fun_eq_iff)

lemma rejected_pagination [simp]:
  "status_filter_rejected (f\<lparr>f_limit := l, f_offset := k\<rparr>) = status_filter_rejected f"
  by (simp add: status_filter_rejected_def)

lemma filters_accepted_pagination [simp]:
  "filters_accepted d (f\<lparr>f_limit := l, f_offset := k\<rparr>) = filters_accepted d f"
  by (simp add: filters_accepted_def)

lemma getGrievances_total:
  "getGrievances scan d f = Inr r \<Longrightarrow> r_total r = length (filter (matches f) (grievances d))"
  unfolding getGrievances_Inr by auto

text \<open>
  C3, as the claim states it, fails. On the feed of three grievances the query with
  limit 1 returns the total 3, and the query with the same filters and the limit
  \<open>10^20\<close> returns no total: the database rejects the limit and the call throws.
\<close>

theorem huge_limit_counterexample:
  "map_sum id r_total (getGrievances stored_order feed (no_filters\<lparr>f_limit := Some 1\<rparr>))
     = Inr 3
   \<and> getGrievances stored_order feed (no_filters\<lparr>f_limit := Some 100000000000000000000\<rparr>)
     = Inl (DbError ''22003'')"
  by code_simp

text \<open>
  C3, amended. The total does not depend on \<open>limit\<close> and \<open>offset\<close> among the calls that
  return: two calls that differ only in these and both return, return the same total
  (in whatever order the database reads the rows in either call),
  and for filters and a sort key that the database accepts every two choices of limit
  and offset that it accepts (each absent or from 0 to \<open>2^63 - 1\<close>) return, with the same
  total. A call returns exactly when the database accepts its filters, sort key, limit
  and offset. The total of a call that returns is the number of stored grievances that
  satisfy the query's predicate, which is the length of the list that the same filters
  return without pagination. (The database returns the selected rows, in some order.)
\<close>

theorem total_ignores_pagination:
  assumes scan: "\<forall>rows. mset (scan rows) = mset rows"
  shows "(\<forall>r1 r2. getGrievances scan1 d (f\<lparr>f_limit := l1, f_offset := k1\<rparr>) = Inr r1
                \<and> getGrievances scan2 d (f\<lparr>f_limit := l2, f_offset := k2\<rparr>) = Inr r2
                \<longrightarrow> r_total r1 = r_total r2)
   \<and> (filters_accepted d f \<and> accepted_count l1 \<and> accepted_count k1
        \<and> accepted_count l2 \<and> accepted_count k2 \<longrightarrow>
        (\<exists>r1 r2. getGrievances scan1 d (f\<lparr>f_limit := l1, f_offset := k1\<rparr>) = Inr r1
                \<and> getGrievances scan2 d (f\<lparr>f_limit := l2, f_offset := k2\<rparr>) = Inr r2
                \<and> r_total r1 = r_total r2))
   \<and> (\<forall>r. getGrievances scan d f = Inr r \<longrightarrow>
         r_total r = length (filter (matches f) (grievances d))
         \<and> (\<exists>r'. getGrievances scan d (f\<lparr>f_limit := None, f_offset := None\<rparr>) = Inr r'
                \<and> r_total r = length (r_grievances r')))
   \<and> ((\<exists>r. getGrievances scan d f = Inr r) \<longleftrightarrow> query_accepted d f)"
proof (intro conjI allI impI)
  fix r1 r2
  assume "getGrievances scan1 d (f\<lparr>f_limit := l1, f_offset := k1\<rparr>) = Inr r1
                \<and> getGrievances scan2 d (f\<lparr>f_limit := l2, f_offset := k2\<rparr>) = Inr r2"
  then show "r_total r1 = r_total r2"
    using getGrievances_total[of scan1 d "f\<lparr>f_limit := l1, f_offset := k1\<rparr>" r1]
      getGrievances_total[of scan2 d "f\<lparr>f_limit := l2, f_offset := k2\<rparr>" r2]
    by simp
next
  assume a: "filters_accepted d f \<and> accepted_count l1 \<and> accepted_count k1
        \<and> accepted_count l2 \<and> accepted_count k2"
  then have "query_accepted d (f\<lparr>f_limit := l1, f_offset := k1\<rparr>)"
    and "query_accepted d (f\<lparr>f_limit := l2, f_offset := k2\<rparr>)"
    by (simp_all add: query_accepted_def)
  then obtain r1 r2 where r: "getGrievances scan1 d (f\<lparr>f_limit := l1, f_offset := k1\<rparr>) = Inr r1"
      "getGrievances scan2 d (f\<lparr>f_limit := l2, f_offset := k2\<rparr>) = Inr r2"
    using getGrievances_returns[of scan1 d] getGrievances_returns[of scan2 d] by blast
  then have "r_total r1 = r_total r2"
    using getGrievances_total[of scan1 d "f\<lparr>f_limit := l1, f_offset := k1\<rparr>" r1]
      getGrievances_total[of scan2 d "f\<lparr>f_limit := l2, f_offset := k2\<rparr>" r2]
    by simp
  with r show "\<exists>r1 r2. getGrievances scan1 d (f\<lparr>f_limit := l1, f_offset := k1\<rparr>) = Inr r1
                \<and> getGrievances scan2 d (f\<lparr>f_limit := l2, f_offset := k2\<rparr>) = Inr r2
                \<and> r_total r1 = r_total r2"
    by blast
next
  fix r assume a: "getGrievances scan d f = Inr r"
  show t: "r_total r = length (filter (matches f) (grievances d))"
    using a by (rule getGrievances_total)
  from a have "query_accepted d f" using getGrievances_returns[of scan d f] by blast
  then have "query_accepted d (f\<lparr>f_limit := None, f_offset := None\<rparr>)"
    by (simp add: query_accepted_def accepted_count_def)
  then obtain r' where r': "getGrievances scan d (f\<lparr>f_limit := None, f_offset := None\<rparr>) = Inr r'"
    using getGrievances_returns[of scan d] by blast
  then obtain res where
      o: "order_by scan (f_sortBy f) (filter (matches f) (grievances d)) = Inr res"
      and e: "r_grievances r' = map (\<lambda>g. (g, author_username d g)) res"
    unfolding getGrievances_Inr by auto
  from order_by_mset[OF scan o] have "length res = length (filter (matches f) (grievances d))"
    by (rule mset_eq_length)
  with t e r' show "\<exists>r'. getGrievances scan d (f\<lparr>f_limit := None, f_offset := None\<rparr>) = Inr r'
                \<and> r_total r = length (r_grievances r')"
    by simp
next
  show "(\<exists>r. getGrievances scan d f = Inr r) \<longleftrightarrow> query_accepted d f"
    by (rule getGrievances_returns)
qed

theorem total_ignores_pagination_witness:
  "map_sum id r_total
     (getGrievances stored_order feed (no_filters\<lparr>f_limit := Some 1, f_offset := Some 0\<rparr>))
     = Inr 3
   \<and> map_sum id r_total
     (getGrievances reverse_order feed (no_filters\<lparr>f_limit := Some 100, f_offset := Some 0\<rparr>))
     = Inr 3
   \<and> map_sum id (length \<circ> r_grievances)
        (getGrievances stored_order feed (no_filters\<lparr>f_limit := Some 1, f_offset := Some 0\<rparr>))
     = Inr 1
   \<and> map_sum id (length \<circ> r_grievances)
        (getGrievances stored_order feed (no_filters\<lparr>f_limit := None, f_offset := None\<rparr>))
     = Inr 3
   \<and> query_accepted feed (no_filters\<lparr>f_limit := Some 1, f_offset := Some 0\<rparr>)
   \<and> \<not> query_accepted feed (no_filters\<lparr>f_limit := Some (- 1), f_offset := Some 0\<rparr>)"
proof -
  have s: "\<forall>rows. mset (stored_order rows) = mset rows" by (simp add: stored_order_def)
  have a: "map_sum id r_total
     (getGrievances stored_order feed (no_filters\<lparr>f_limit := Some 1, f_offset := Some 0\<rparr>))
     = Inr 3" by code_simp
  have b: "map_sum id (length \<circ> r_grievances)
        (getGrievances stored_order feed (no_filters\<lparr>f_limit := Some 1, f_offset := Some 0\<rparr>))
     = Inr 1"
    by code_simp
  have c: "map_sum id (length \<circ> r_grievances)
        (getGrievances stored_order feed (no_filters\<lparr>f_limit := None, f_offset := None\<rparr>))
     = Inr 3"
    by code_simp
  have e: "map_sum id r_total
     (getGrievances reverse_order feed (no_filters\<lparr>f_limit := Some 100, f_offset := Some 0\<rparr>))
     = Inr 3" by code_simp
  have n: "getGrievances stored_order feed (no_filters\<lparr>f_limit := Some (- 1), f_offset := Some 0\<rparr>)
     = Inl (DbError ''2201W'')" by code_simp
  have acc: "filters_accepted feed no_filters"
    by (simp add: filters_accepted_def status_filter_rejected_def no_filters_def
          active_filter_def sorts_by_net_votes_def readable_def)
  note t = total_ignores_pagination[OF s, where d = feed and ?l1.0 = "Some 1"
      and ?k1.0 = "Some 0" and ?l2.0 = "Some 100" and ?k2.0 = "Some 0"
      and ?scan1.0 = stored_order and ?scan2.0 = reverse_order]
  have q1: "query_accepted feed (no_filters\<lparr>f_limit := Some 1, f_offset := Some 0\<rparr>)"
    using t[of "no_filters\<lparr>f_limit := Some 1, f_offset := Some 0\<rparr>"] a
    by (cases "getGrievances stored_order feed (no_filters\<lparr>f_limit := Some 1, f_offset := Some 0\<rparr>)")
       auto
  have q2: "\<not> query_accepted feed (no_filters\<lparr>f_limit := Some (- 1), f_offset := Some 0\<rparr>)"
    using t[of "no_filters\<lparr>f_limit := Some (- 1), f_offset := Some 0\<rparr>"] n by simp
  from t[of no_filters] acc a b c e q1 q2 show ?thesis
    by (simp add: accepted_count_def)
qed

section \<open>Which grievances a query returns\<close>

lemma spec_field_filter_eq:
  "v \<noteq> Some [] \<Longrightarrow> field_filter v x = spec_field_filter v x"
  by (cases v) (auto simp: field_filter_def spec_field_filter_def)

lemma ilike_nullable_contains:
  "plain_text t \<Longrightarrow> ilike_nullable l (''%'' @ t @ ''%'')
     = (case l of None \<Rightarrow> False | Some x \<Rightarrow> contains_ci t x)"
  using ilike_contains[of t] by (cases l) simp_all

lemma contains_ci_empty [simp]: "contains_ci [] x"
  by (simp add: contains_ci_def lower_def)

lemma matches_spec:
  assumes "f_authorId f = None"
    and "f_category f \<noteq> Some []" "f_municipality f \<noteq> Some []" "f_status f \<noteq> Some []"
    and "case f_search f of None \<Rightarrow> True | Some t \<Rightarrow> plain_text t"
  shows "matches f g = spec_matches f g"
proof (cases "f_search f")
  case None
  with assms show ?thesis
    by (simp add: matches_def spec_matches_def spec_field_filter_eq)
next
  case (Some t)
  with assms have p: "plain_text t" by simp
  have "(t = [] \<or> ilike (g_title g) (''%'' @ t @ ''%'')
                      \<or> ilike (g_description g) (''%'' @ t @ ''%'')
                      \<or> ilike_nullable (g_location g) (''%'' @ t @ ''%'')) = spec_contains t g"
    unfolding spec_contains_def ilike_contains[OF p] ilike_nullable_contains[OF p]
    by (cases "t = []") auto
  with Some assms show ?thesis
    by (simp add: matches_def spec_matches_def spec_field_filter_eq)
qed

lemma parse_status_labels:
  "parse_status s = None \<longleftrightarrow>
     s \<notin> set (map status_label [Pending, Urgent, InProgress, Resolved, Closed])"
  by (simp add: parse_status_def)

lemma status_filter_rejected_iff:
  "status_filter_rejected f \<longleftrightarrow>
     (\<exists>s. f_status f = Some s \<and> s \<noteq> [] \<and> s \<noteq> ''all''
          \<and> s \<notin> set (map status_label [Pending, Urgent, InProgress, Resolved, Closed]))"
  unfolding status_filter_rejected_def active_filter_def parse_status_labels[symmetric]
  by (cases "f_status f") auto

text \<open>
  C6, as the claim states it, fails. In the example store the search value \<open>_\<close> returns
  the grievance \<open>Pothole\<close>, in whose title, description and (absent) location no underscore
  occurs: the value is used as a pattern, and \<open>_\<close> stands for any character. And the
  category filter \<open>""\<close>, which is neither absent nor \<open>all\<close>, returns the grievance although
  its category is \<open>roads\<close>: an empty value is falsy and adds no condition.
\<close>

theorem wildcard_search_counterexample:
  "getGrievances stored_order store0 (no_filters\<lparr>f_search := Some ''_''\<rparr>)
     = Inr \<lparr>r_grievances = [(pothole, Some ''alice'')], r_total = 1\<rparr>
   \<and> \<not> spec_matches (no_filters\<lparr>f_search := Some ''_''\<rparr>) pothole
   \<and> getGrievances stored_order store0 (no_filters\<lparr>f_category := Some ''''\<rparr>)
     = Inr \<lparr>r_grievances = [(pothole, Some ''alice'')], r_total = 1\<rparr>
   \<and> \<not> spec_matches (no_filters\<lparr>f_category := Some ''''\<rparr>) pothole"
  by code_simp

text \<open>
  C6, amended. A query that returns, returns a page of the ordered list of exactly the
  stored grievances that satisfy \<open>matches\<close>, and without pagination the returned
  grievances are exactly those, each once: a category, municipality or status filter that
  is absent, empty or \<open>all\<close> constrains nothing and any other value requires equality; a
  non-empty search value \<open>s\<close> is the case-insensitive pattern \<open>%s%\<close> on title, description
  or location. A status filter that is neither absent, empty, \<open>all\<close> nor one of the five
  status labels makes the query fail; a query returns exactly when the database accepts
  its filters (none holds a NUL character), sort key, limit and offset. For a search
  value without a pattern
  character, and filters that are not the empty string (and no author filter, which the
  route never sets), \<open>matches\<close> is the claimed predicate: the text occurs
  case-insensitively in the title, the description or the location. (The database
  returns the selected rows, in some order.)
\<close>

theorem filter_predicate:
  assumes scan: "\<forall>rows. mset (scan rows) = mset rows"
  shows "(\<forall>r. getGrievances scan d f = Inr r \<longrightarrow>
       (\<exists>res. order_by scan (f_sortBy f) (filter (matches f) (grievances d)) = Inr res
            \<and> mset res = mset (filter (matches f) (grievances d))
            \<and> map fst (r_grievances r) = paginate (f_limit f) (f_offset f) res)
       \<and> (f_limit f = None \<and> f_offset f = None \<longrightarrow>
            mset (map fst (r_grievances r)) = mset (filter (matches f) (grievances d))
            \<and> set (map fst (r_grievances r)) = {g \<in> set (grievances d). matches f g}))
   \<and> ((\<exists>r. getGrievances scan d f = Inr r) \<longleftrightarrow> query_accepted d f)
   \<and> (status_filter_rejected f \<longrightarrow> (\<exists>e. getGrievances scan d f = Inl e))
   \<and> (status_filter_rejected f \<longleftrightarrow>
        (\<exists>s. f_status f = Some s \<and> s \<noteq> [] \<and> s \<noteq> ''all''
             \<and> s \<notin> set (map status_label [Pending, Urgent, InProgress, Resolved, Closed])))
   \<and> (f_authorId f = None
        \<and> f_category f \<noteq> Some [] \<and> f_municipality f \<noteq> Some [] \<and> f_status f \<noteq> Some []
        \<and> (case f_search f of None \<Rightarrow> True | Some t \<Rightarrow> plain_text t)
        \<longrightarrow> matches f g = spec_matches f g)"
proof (intro conjI allI impI)
  fix r assume a: "getGrievances scan d f = Inr r"
  then obtain res where
      o: "order_by scan (f_sortBy f) (filter (matches f) (grievances d)) = Inr res"
      and e: "r_grievances r
                = map (\<lambda>g. (g, author_username d g)) (paginate (f_limit f) (f_offset f) res)"
    unfolding getGrievances_Inr by auto
  have m: "mset res = mset (filter (matches f) (grievances d))"
    using order_by_mset[OF scan o] .
  have l: "map fst (r_grievances r) = paginate (f_limit f) (f_offset f) res"
    unfolding e by (simp add: comp_def)
  from o m l
  show "\<exists>res. order_by scan (f_sortBy f) (filter (matches f) (grievances d)) = Inr res
            \<and> mset res = mset (filter (matches f) (grievances d))
            \<and> map fst (r_grievances r) = paginate (f_limit f) (f_offset f) res"
    by blast
  assume n: "f_limit f = None \<and> f_offset f = None"
  show "mset (map fst (r_grievances r)) = mset (filter (matches f) (grievances d))"
    unfolding l using n m by simp
  have "set res = set (filter (matches f) (grievances d))"
    using m by (rule mset_eq_setD)
  then show "set (map fst (r_grievances r)) = {g \<in> set (grievances d). matches f g}"
    unfolding l using n by auto
next
  show "(\<exists>r. getGrievances scan d f = Inr r) \<longleftrightarrow> query_accepted d f"
    by (rule getGrievances_returns)
next
  assume "status_filter_rejected f"
  then have "\<not> query_accepted d f" by (simp add: query_accepted_def filters_accepted_def)
  then have "\<forall>r. getGrievances scan d f \<noteq> Inr r"
    using getGrievances_returns[of scan d f] by blast
  then show "\<exists>e. getGrievances scan d f = Inl e"
    by (cases "getGrievances scan d f") auto
next
  show "status_filter_rejected f \<longleftrightarrow>
        (\<exists>s. f_status f = Some s \<and> s \<noteq> [] \<and> s \<noteq> ''all''
             \<and> s \<notin> set (map status_label [Pending, Urgent, InProgress, Resolved, Closed]))"
    by (rule status_filter_rejected_iff)
next
  assume "f_authorId f = None
        \<and> f_category f \<noteq> Some [] \<and> f_municipality f \<noteq> Some [] \<and> f_status f \<noteq> Some []
        \<and> (case f_search f of None \<Rightarrow> True | Some t \<Rightarrow> plain_text t)"
  then show "matches f g = spec_matches f g"
    using matches_spec[of f g] by blast
qed

theorem filter_predicate_witness:
  "getGrievances stored_order feed
       (no_filters\<lparr>f_category := Some ''roads'', f_search := Some ''HOLE''\<rparr>)
     = Inr \<lparr>r_grievances = [(ga, Some ''alice'')], r_total = 1\<rparr>
   \<and> map (spec_matches (no_filters\<lparr>f_category := Some ''roads'', f_search := Some ''HOLE''\<rparr>))
       [ga, gb, gc] = [True, False, False]
   \<and> map (matches (no_filters\<lparr>f_category := Some ''roads'', f_search := Some ''HOLE''\<rparr>))
       [ga, gb, gc] = [True, False, False]
   \<and> getGrievances stored_order feed (no_filters\<lparr>f_status := Some ''open''\<rparr>)
     = Inl (DbError ''22P02'')
   \<and> map_sum id (map (g_id \<circ> fst) \<circ> r_grievances)
       (getGrievances stored_order feed (no_filters\<lparr>f_status := Some ''urgent''\<rparr>))
     = Inr [''gb'']"
proof -
  let ?f = "no_filters\<lparr>f_category := Some ''roads'', f_search := Some ''HOLE''\<rparr>"
  let ?o = "no_filters\<lparr>f_status := Some ''open''\<rparr>"
  have s: "\<forall>rows. mset (stored_order rows) = mset rows" by (simp add: stored_order_def)
  have a: "getGrievances stored_order feed ?f
             = Inr \<lparr>r_grievances = [(ga, Some ''alice'')], r_total = 1\<rparr>"
    by code_simp
  have b: "map (spec_matches ?f) [ga, gb, gc] = [True, False, False]" by code_simp
  have u: "map_sum id (map (g_id \<circ> fst) \<circ> r_grievances)
       (getGrievances stored_order feed (no_filters\<lparr>f_status := Some ''urgent''\<rparr>))
     = Inr [''gb'']" by code_simp
  have h: "f_authorId ?f = None
        \<and> f_category ?f \<noteq> Some [] \<and> f_municipality ?f \<noteq> Some [] \<and> f_status ?f \<noteq> Some []
        \<and> (case f_search ?f of None \<Rightarrow> True | Some t \<Rightarrow> plain_text t)"
    by (simp add: no_filters_def plain_text_def wildcard_def)
  have rej: "\<exists>s. f_status ?o = Some s \<and> s \<noteq> [] \<and> s \<noteq> ''all''
             \<and> s \<notin> set (map status_label [Pending, Urgent, InProgress, Resolved, Closed])"
    by (simp add: no_filters_def)
  have o: "getGrievances stored_order feed ?o = Inl (DbError ''22P02'')" by code_simp
  have x: "\<exists>e. getGrievances stored_order feed ?o = Inl e"
    using filter_predicate[OF s, of feed ?o] rej by blast
  from filter_predicate[OF s, of feed ?f ga] filter_predicate[OF s, of feed ?f gb]
    filter_predicate[OF s, of feed ?f gc] a b h o u x
  show ?thesis by simp
qed

section \<open>The order of the returned grievances\<close>

lemma sorted_wrt_sort_key:
  "(\<And>a b. f a \<le> f b \<Longrightarrow> R a b) \<Longrightarrow> sorted_wrt R (sort_key f xs)"
proof -
  assume r: "\<And>a b. f a \<le> f b \<Longrightarrow> R a b"
  have "sorted (map f (sort_key f xs))" by (rule sorted_sort_key)
  then have "sorted_wrt (\<lambda>a b. f a \<le> f b) (sort_key f xs)" by (simp add: sorted_map)
  then show ?thesis by (rule sorted_wrt_mono_rel[rotated]) (use r in auto)
qed

lemma stable_sort_key:
  "(\<And>g. P g = (f g = k)) \<Longrightarrow> filter P (sort_key f xs) = filter P xs"
proof -
  assume "\<And>g. P g = (f g = k)"
  then have "P = (\<lambda>g. f g = k)" by (simp add: fun_eq_iff)
  then show ?thesis by (simp add: sort_key_stable)
qed

lemma order_by_newest:
  assumes "other_sort_key s" and "order_by scan s rows = Inr res"
  shows "sorted_wrt (\<lambda>a b. g_timestamp a \<ge> g_timestamp b) res"
    and "filter (\<lambda>g. g_timestamp g = t) res = filter (\<lambda>g. g_timestamp g = t) (scan rows)"
proof -
  have o: "res = sort_key (\<lambda>g. - g_timestamp g) (scan rows)"
    using assms by (simp add: order_by_def other_sort_key_def)
  show "sorted_wrt (\<lambda>a b. g_timestamp a \<ge> g_timestamp b) res"
    unfolding o by (rule sorted_wrt_sort_key) simp
  show "filter (\<lambda>g. g_timestamp g = t) res = filter (\<lambda>g. g_timestamp g = t) (scan rows)"
    unfolding o by (rule stable_sort_key[where k = "- t"]) auto
qed

lemma order_by_oldest:
  assumes "order_by scan (Some ''oldest'') rows = Inr res"
  shows "sorted_wrt (\<lambda>a b. g_timestamp a \<le> g_timestamp b) res"
    and "filter (\<lambda>g. g_timestamp g = t) res = filter (\<lambda>g. g_timestamp g = t) (scan rows)"
proof -
  have o: "res = sort_key g_timestamp (scan rows)"
    using assms by (simp add: order_by_def)
  show "sorted_wrt (\<lambda>a b. g_timestamp a \<le> g_timestamp b) res"
    unfolding o by (rule sorted_wrt_sort_key) simp
  show "filter (\<lambda>g. g_timestamp g = t) res = filter (\<lambda>g. g_timestamp g = t) (scan rows)"
    unfolding o by (rule stable_sort_key[where k = t]) auto
qed

lemma order_by_upvotes_high:
  assumes "order_by scan (Some ''upvotes-high'') rows = Inr res"
  shows "sorted_wrt (\<lambda>a b. net_votes a \<ge> net_votes b) res"
    and "filter (\<lambda>g. net_votes g = n) res = filter (\<lambda>g. net_votes g = n) (scan rows)"
proof -
  have o: "res = sort_key (\<lambda>g. - net_votes g) (scan rows)"
    using assms by (auto simp: order_by_def net_votes_def split: if_splits)
  show "sorted_wrt (\<lambda>a b. net_votes a \<ge> net_votes b) res"
    unfolding o by (rule sorted_wrt_sort_key) simp
  show "filter (\<lambda>g. net_votes g = n) res = filter (\<lambda>g. net_votes g = n) (scan rows)"
    unfolding o by (rule stable_sort_key[where k = "- n"]) auto
qed

lemma order_by_upvotes_low:
  assumes "order_by scan (Some ''upvotes-low'') rows = Inr res"
  shows "sorted_wrt (\<lambda>a b. net_votes a \<le> net_votes b) res"
    and "filter (\<lambda>g. net_votes g = n) res = filter (\<lambda>g. net_votes g = n) (scan rows)"
proof -
  have "net_votes = (\<lambda>g. g_upvotes g - g_downvotes g)"
    by (simp add: fun_eq_iff net_votes_def)
  then have o: "res = sort_key net_votes (scan rows)"
    using assms by (auto simp: order_by_def split: if_splits)
  show "sorted_wrt (\<lambda>a b. net_votes a \<le> net_votes b) res"
    unfolding o by (rule sorted_wrt_sort_key) simp
  show "filter (\<lambda>g. net_votes g = n) res = filter (\<lambda>g. net_votes g = n) (scan rows)"
    unfolding o by (rule stable_sort_key[where k = n]) auto
qed

lemma order_by_urgent:
  assumes "order_by scan (Some ''urgent'') rows = Inr res"
  shows "sorted_wrt urgent_first res"
    and "filter (\<lambda>g. (g_status g = Urgent) = u \<and> g_timestamp g = t) res
           = filter (\<lambda>g. (g_status g = Urgent) = u \<and> g_timestamp g = t) (scan rows)"
proof -
  have o: "res
      = sort_key (\<lambda>g. (if g_status g = Urgent then 0 else 1 :: int, - g_timestamp g)) (scan rows)"
    using assms by (simp add: order_by_def)
  show "sorted_wrt urgent_first res"
    unfolding o
    by (rule sorted_wrt_sort_key) (auto simp: urgent_first_def less_eq_prod_def split: if_splits)
  show "filter (\<lambda>g. (g_status g = Urgent) = u \<and> g_timestamp g = t) res
           = filter (\<lambda>g. (g_status g = Urgent) = u \<and> g_timestamp g = t) (scan rows)"
    unfolding o
    by (rule stable_sort_key[where k = "(if u then 0 else 1, - t)"]) auto
qed

lemma mset_single_list: "mset zs = {#k#} \<Longrightarrow> zs = [k]"
  by (cases zs) auto

lemma order_by_example:
  assumes scan: "\<forall>rows. mset (scan rows) = mset rows"
    and nets: "net_votes a = 5" "net_votes b = - 1" "net_votes c = 3"
  shows "order_by scan (Some ''upvotes-high'') [a, b, c] = Inr [a, c, b]"
proof -
  let ?f = "\<lambda>g. - net_votes g"
  from scan have m: "mset (scan [a, b, c]) = mset [a, b, c]" by blast
  have f: "filter (\<lambda>x. ?f k = ?f x) [a, c, b] = filter (\<lambda>x. ?f k = ?f x) (scan [a, b, c])"
    if "k \<in> set [a, c, b]" for k
  proof -
    have "mset (filter (\<lambda>x. ?f k = ?f x) (scan [a, b, c]))
            = filter_mset (\<lambda>x. ?f k = ?f x) (mset (scan [a, b, c]))"
      by (rule mset_filter)
    also have "\<dots> = filter_mset (\<lambda>x. ?f k = ?f x) (mset [a, b, c])"
      by (simp only: m)
    also have "\<dots> = {#k#}" using that nets by auto
    finally have "filter (\<lambda>x. ?f k = ?f x) (scan [a, b, c]) = [k]" by (rule mset_single_list)
    moreover have "filter (\<lambda>x. ?f k = ?f x) [a, c, b] = [k]" using that nets by auto
    ultimately show ?thesis by simp
  qed
  have "sort_key ?f (scan [a, b, c]) = [a, c, b]"
  proof (rule properties_for_sort_key)
    show "mset [a, c, b] = mset (scan [a, b, c])" using m by simp
    show "\<And>k. k \<in> set [a, c, b] \<Longrightarrow>
        filter (\<lambda>x. ?f k = ?f x) [a, c, b] = filter (\<lambda>x. ?f k = ?f x) (scan [a, b, c])"
      by (rule f)
    show "sorted (map ?f [a, c, b])" using nets by simp
  qed
  moreover have "list_all (\<lambda>g. fits 32 (g_upvotes g - g_downvotes g)) [a, b, c]"
    using nets by (simp add: fits_def net_votes_def)
  moreover have "(\<lambda>g. - (g_upvotes g - g_downvotes g)) = ?f"
    by (simp add: fun_eq_iff net_votes_def)
  ultimately show ?thesis by (simp add: order_by_def)
qed

text \<open>
  C5, as the claim states it, fails, in two ways. The query names no column that breaks
  ties, and the database does not return ties in the order in which the rows were
  stored: read in another order, the two grievances of \<open>twins\<close>, which have the same
  timestamp and were stored as \<open>gc\<close>, \<open>gd\<close>, come back under \<open>newest\<close> as \<open>gd\<close>, \<open>gc\<close>.
  And the query does not order every list of grievances: once alice's PATCH has stored
  the counters 2147483647 and -1 on her grievance (answer 200), the net votes do not fit
  the database's integer and the query under \<open>upvotes-high\<close> throws.
\<close>

theorem tie_order_counterexample:
  "map g_timestamp (grievances twins) = [2000, 2000]
   \<and> map g_id (grievances twins) = [''gc'', ''gd'']
   \<and> mset (reverse_order (grievances twins)) = mset (grievances twins)
   \<and> map_sum id (map (g_id \<circ> fst) \<circ> r_grievances)
       (getGrievances reverse_order twins (no_filters\<lparr>f_sortBy := Some ''newest''\<rparr>))
     = Inr [''gd'', ''gc'']
   \<and> snd (patch_grievance store0 alice_session ''g1''
            (no_updates\<lparr>up_upvotes := Some 2147483647, up_downvotes := Some (- 1)\<rparr>) 7000)
     = Response 200 (GrievanceBody (Some
         (pothole\<lparr>g_upvotes := 2147483647, g_downvotes := - 1, g_updatedAt := 7000\<rparr>)))
   \<and> getGrievances stored_order store_skewed (no_filters\<lparr>f_sortBy := Some ''upvotes-high''\<rparr>)
     = Inl (DbError ''22003'')"
proof -
  have a: "map g_timestamp (grievances twins) = [2000, 2000]" by code_simp
  have b: "map g_id (grievances twins) = [''gc'', ''gd'']" by code_simp
  have c: "mset (reverse_order (grievances twins)) = mset (grievances twins)"
    by (simp add: reverse_order_def)
  have e: "map_sum id (map (g_id \<circ> fst) \<circ> r_grievances)
       (getGrievances reverse_order twins (no_filters\<lparr>f_sortBy := Some ''newest''\<rparr>))
     = Inr [''gd'', ''gc'']" by code_simp
  have f: "snd (patch_grievance store0 alice_session ''g1''
            (no_updates\<lparr>up_upvotes := Some 2147483647, up_downvotes := Some (- 1)\<rparr>) 7000)
     = Response 200 (GrievanceBody (Some
         (pothole\<lparr>g_upvotes := 2147483647, g_downvotes := - 1, g_updatedAt := 7000\<rparr>)))"
    by code_simp
  have g: "getGrievances stored_order store_skewed (no_filters\<lparr>f_sortBy := Some ''upvotes-high''\<rparr>)
     = Inl (DbError ''22003'')" by code_simp
  from a b c e f g show ?thesis by simp
qed

text \<open>
  C5, amended. The list a query returns is the page of the matching grievances put in
  order by the sort key. Under \<open>upvotes-high\<close> and \<open>upvotes-low\<close> the rows are ordered
  exactly when the net votes of all of them fit 32 bits; under every other key they
  always are. The ordered list is a permutation of the rows. Under \<open>newest\<close> (and under
  any other key that is none of the four below) timestamps descend, under \<open>oldest\<close> they
  ascend, under \<open>upvotes-high\<close> net votes descend, under \<open>upvotes-low\<close> they ascend,
  under \<open>urgent\<close> urgent rows come first and within each group timestamps descend. There
  is no secondary tie-break: rows that tie on the sort key come in the order in which the
  database read them, which the code does not determine. Three grievances with net votes
  5, -1, 3 come back under \<open>upvotes-high\<close> as 5, 3, -1. (The database reads the selected
  rows, in some order.)
\<close>

theorem sort_orders:
  assumes scan: "\<forall>rows. mset (scan rows) = mset rows"
  shows "(\<forall>r. getGrievances scan d f = Inr r \<longrightarrow>
       (\<exists>res. order_by scan (f_sortBy f) (filter (matches f) (grievances d)) = Inr res
            \<and> map fst (r_grievances r) = paginate (f_limit f) (f_offset f) res))
   \<and> ((\<exists>res. order_by scan s rows = Inr res)
        \<longleftrightarrow> (s = Some ''upvotes-high'' \<or> s = Some ''upvotes-low''
              \<longrightarrow> list_all (\<lambda>g. fits 32 (net_votes g)) rows))
   \<and> (\<forall>res. order_by scan s rows = Inr res \<longrightarrow>
        mset res = mset rows
        \<and> (s = Some ''newest'' \<or> other_sort_key s \<longrightarrow>
             sorted_wrt (\<lambda>a b. g_timestamp a \<ge> g_timestamp b) res
             \<and> (\<forall>t. filter (\<lambda>g. g_timestamp g = t) res
                      = filter (\<lambda>g. g_timestamp g = t) (scan rows)))
        \<and> (s = Some ''oldest'' \<longrightarrow>
             sorted_wrt (\<lambda>a b. g_timestamp a \<le> g_timestamp b) res
             \<and> (\<forall>t. filter (\<lambda>g. g_timestamp g = t) res
                      = filter (\<lambda>g. g_timestamp g = t) (scan rows)))
        \<and> (s = Some ''upvotes-high'' \<longrightarrow>
             sorted_wrt (\<lambda>a b. net_votes a \<ge> net_votes b) res
             \<and> (\<forall>n. filter (\<lambda>g. net_votes g = n) res
                      = filter (\<lambda>g. net_votes g = n) (scan rows)))
        \<and> (s = Some ''upvotes-low'' \<longrightarrow>
             sorted_wrt (\<lambda>a b. net_votes a \<le> net_votes b) res
             \<and> (\<forall>n. filter (\<lambda>g. net_votes g = n) res
                      = filter (\<lambda>g. net_votes g = n) (scan rows)))
        \<and> (s = Some ''urgent'' \<longrightarrow>
             sorted_wrt urgent_first res
             \<and> (\<forall>u t. filter (\<lambda>g. (g_status g = Urgent) = u \<and> g_timestamp g = t) res
                        = filter (\<lambda>g. (g_status g = Urgent) = u \<and> g_timestamp g = t)
                            (scan rows))))
   \<and> (net_votes a = 5 \<and> net_votes b = - 1 \<and> net_votes c = 3 \<longrightarrow>
        order_by scan (Some ''upvotes-high'') [a, b, c] = Inr [a, c, b])"
proof -
  have q: "\<forall>r. getGrievances scan d f = Inr r \<longrightarrow>
       (\<exists>res. order_by scan (f_sortBy f) (filter (matches f) (grievances d)) = Inr res
            \<and> map fst (r_grievances r) = paginate (f_limit f) (f_offset f) res)"
    unfolding getGrievances_Inr by (auto simp: comp_def)
  have ret: "(\<exists>res. order_by scan s rows = Inr res)
        \<longleftrightarrow> (s = Some ''upvotes-high'' \<or> s = Some ''upvotes-low''
              \<longrightarrow> list_all (\<lambda>g. fits 32 (net_votes g)) rows)"
    using order_by_returns[of scan s rows] by (simp add: sorts_by_net_votes_def)
  have n: "other_sort_key (Some ''newest'')" by (simp add: other_sort_key_def)
  have ord: "mset res = mset rows
        \<and> (s = Some ''newest'' \<or> other_sort_key s \<longrightarrow>
             sorted_wrt (\<lambda>a b. g_timestamp a \<ge> g_timestamp b) res
             \<and> (\<forall>t. filter (\<lambda>g. g_timestamp g = t) res
                      = filter (\<lambda>g. g_timestamp g = t) (scan rows)))
        \<and> (s = Some ''oldest'' \<longrightarrow>
             sorted_wrt (\<lambda>a b. g_timestamp a \<le> g_timestamp b) res
             \<and> (\<forall>t. filter (\<lambda>g. g_timestamp g = t) res
                      = filter (\<lambda>g. g_timestamp g = t) (scan rows)))
        \<and> (s = Some ''upvotes-high'' \<longrightarrow>
             sorted_wrt (\<lambda>a b. net_votes a \<ge> net_votes b) res
             \<and> (\<forall>n. filter (\<lambda>g. net_votes g = n) res
                      = filter (\<lambda>g. net_votes g = n) (scan rows)))
        \<and> (s = Some ''upvotes-low'' \<longrightarrow>
             sorted_wrt (\<lambda>a b. net_votes a \<le> net_votes b) res
             \<and> (\<forall>n. filter (\<lambda>g. net_votes g = n) res
                      = filter (\<lambda>g. net_votes g = n) (scan rows)))
        \<and> (s = Some ''urgent'' \<longrightarrow>
             sorted_wrt urgent_first res
             \<and> (\<forall>u t. filter (\<lambda>g. (g_status g = Urgent) = u \<and> g_timestamp g = t) res
                        = filter (\<lambda>g. (g_status g = Urgent) = u \<and> g_timestamp g = t)
                            (scan rows)))"
    if o: "order_by scan s rows = Inr res" for res
  proof (intro conjI impI allI)
    show "mset res = mset rows" using order_by_mset[OF scan o] .
  next
    assume "s = Some ''newest'' \<or> other_sort_key s"
    then have k: "other_sort_key s" using n by blast
    show "sorted_wrt (\<lambda>a b. g_timestamp a \<ge> g_timestamp b) res"
      using order_by_newest(1)[OF k o] .
    show "filter (\<lambda>g. g_timestamp g = t) res = filter (\<lambda>g. g_timestamp g = t) (scan rows)" for t
      using order_by_newest(2)[OF k o] .
  next
    assume k: "s = Some ''oldest''"
    show "sorted_wrt (\<lambda>a b. g_timestamp a \<le> g_timestamp b) res"
      using order_by_oldest(1)[OF o[unfolded k]] .
    show "filter (\<lambda>g. g_timestamp g = t) res = filter (\<lambda>g. g_timestamp g = t) (scan rows)" for t
      using order_by_oldest(2)[OF o[unfolded k]] .
  next
    assume k: "s = Some ''upvotes-high''"
    show "sorted_wrt (\<lambda>a b. net_votes a \<ge> net_votes b) res"
      using order_by_upvotes_high(1)[OF o[unfolded k]] .
    show "filter (\<lambda>g. net_votes g = n) res = filter (\<lambda>g. net_votes g = n) (scan rows)" for n
      using order_by_upvotes_high(2)[OF o[unfolded k]] .
  next
    assume k: "s = Some ''upvotes-low''"
    show "sorted_wrt (\<lambda>a b. net_votes a \<le> net_votes b) res"
      using order_by_upvotes_low(1)[OF o[unfolded k]] .
    show "filter (\<lambda>g. net_votes g = n) res = filter (\<lambda>g. net_votes g = n) (scan rows)" for n
      using order_by_upvotes_low(2)[OF o[unfolded k]] .
  next
    assume k: "s = Some ''urgent''"
    show "sorted_wrt urgent_first res"
      using order_by_urgent(1)[OF o[unfolded k]] .
    show "filter (\<lambda>g. (g_status g = Urgent) = u \<and> g_timestamp g = t) res
            = filter (\<lambda>g. (g_status g = Urgent) = u \<and> g_timestamp g = t) (scan rows)" for u t
      using order_by_urgent(2)[OF o[unfolded k]] .
  qed
  have ex: "net_votes a = 5 \<and> net_votes b = - 1 \<and> net_votes c = 3 \<longrightarrow>
        order_by scan (Some ''upvotes-high'') [a, b, c] = Inr [a, c, b]"
    using order_by_example[OF scan, of a b c] by blast
  from q ret ord ex show ?thesis by blast
qed

theorem sort_orders_witness:
  "map (map_sum id (map (g_id \<circ> fst) \<circ> r_grievances))
     (map (\<lambda>s. getGrievances stored_order feed (no_filters\<lparr>f_sortBy := s\<rparr>))
        [Some ''upvotes-high'', Some ''upvotes-low'', Some ''newest'', None, Some ''oldest'',
         Some ''urgent''])
     = [Inr [''ga'', ''gc'', ''gb''], Inr [''gb'', ''gc'', ''ga''], Inr [''gb'', ''gc'', ''ga''],
        Inr [''gb'', ''gc'', ''ga''], Inr [''ga'', ''gc'', ''gb''], Inr [''gb'', ''gc'', ''ga'']]
   \<and> map net_votes [ga, gb, gc] = [5, - 1, 3]
   \<and> order_by stored_order (Some ''upvotes-high'') [ga, gb, gc] = Inr [ga, gc, gb]
   \<and> order_by reverse_order (Some ''upvotes-high'') [ga, gb, gc] = Inr [ga, gc, gb]
   \<and> map net_votes [ga, gc, gb] = [5, 3, - 1]"
proof -
  have s: "\<forall>rows. mset (stored_order rows) = mset rows" by (simp add: stored_order_def)
  have r: "\<forall>rows. mset (reverse_order rows) = mset rows" by (simp add: reverse_order_def)
  have l: "map (map_sum id (map (g_id \<circ> fst) \<circ> r_grievances))
     (map (\<lambda>s. getGrievances stored_order feed (no_filters\<lparr>f_sortBy := s\<rparr>))
        [Some ''upvotes-high'', Some ''upvotes-low'', Some ''newest'', None, Some ''oldest'',
         Some ''urgent''])
     = [Inr [''ga'', ''gc'', ''gb''], Inr [''gb'', ''gc'', ''ga''], Inr [''gb'', ''gc'', ''ga''],
        Inr [''gb'', ''gc'', ''ga''], Inr [''ga'', ''gc'', ''gb''], Inr [''gb'', ''gc'', ''ga'']]"
    by code_simp
  have n: "map net_votes [ga, gb, gc] = [5, - 1, 3]" by code_simp
  have m: "map net_votes [ga, gc, gb] = [5, 3, - 1]" by code_simp
  from sort_orders[OF s, where a = ga and b = gb and c = gc] 
       sort_orders[OF r, where a = ga and b = gb and c = gc] l n m
  show ?thesis by simp
qed

end
